theory Spec2Isabelle
  imports Main "HOL-Library.Monad_Syntax"
begin

section \<open>Python values used by \<open>homeassistant/components/voip/sip.py\<close>\<close>

text \<open>
  A Python \<open>str\<close> is a sequence of Unicode code points and \<open>len\<close> and slicing count
  code points, so a \<open>str\<close> is a list of code points (\<open>nat\<close>). A \<open>bytes\<close> value is a
  list of 8-bit characters; an ASCII datagram can then be written as a literal.
\<close>

type_synonym ustr = "nat list"
type_synonym bytes = "char list"

text \<open>The code points of an ASCII literal.\<close>

definition ascii :: "string \<Rightarrow> ustr" where
  "ascii s = map of_char s"

text \<open>The exceptions the module can raise. All of them are subclasses of \<open>Exception\<close>.\<close>

datatype py_error =
    UnicodeDecodeError
  | UnicodeEncodeError
  | IndexError
  | ValueError
  | KeyError
  | AssertionError

fun is_Exception :: "py_error \<Rightarrow> bool" where
  "is_Exception UnicodeDecodeError = True"
| "is_Exception UnicodeEncodeError = True"
| "is_Exception IndexError = True"
| "is_Exception ValueError = True"
| "is_Exception KeyError = True"
| "is_Exception AssertionError = True"

subsection \<open>\<open>bytes.decode()\<close> and \<open>str.encode()\<close>: strict UTF-8\<close>

definition is_cont :: "nat \<Rightarrow> bool" where
  "is_cont b \<longleftrightarrow> 128 \<le> b \<and> b < 192"

definition is_surrogate :: "nat \<Rightarrow> bool" where
  "is_surrogate c \<longleftrightarrow> 55296 \<le> c \<and> c < 57344"

definition cons_opt :: "'a \<Rightarrow> 'a list option \<Rightarrow> 'a list option" where
  "cons_opt x r = (case r of None \<Rightarrow> None | Some xs \<Rightarrow> Some (x # xs))"

text \<open>
  The decoder reads one scalar value at a time. It refuses a stray continuation byte, a
  truncated sequence, an overlong form (lead bytes \<open>0xC0\<close>, \<open>0xC1\<close>, and three- or
  four-byte forms of small values), a surrogate and a value above \<open>0x10FFFF\<close>.
\<close>

fun utf8_decode :: "nat list \<Rightarrow> ustr option" where
  "utf8_decode [] = Some []"
| "utf8_decode (b0 # bs) =
     (if b0 < 128 then cons_opt b0 (utf8_decode bs)
      else if 194 \<le> b0 \<and> b0 < 224 then
        (case bs of
           b1 # r \<Rightarrow>
             if is_cont b1 then cons_opt ((b0 - 192) * 64 + (b1 - 128)) (utf8_decode r)
             else None
         | _ \<Rightarrow> None)
      else if 224 \<le> b0 \<and> b0 < 240 then
        (case bs of
           b1 # b2 # r \<Rightarrow>
             (let c = (b0 - 224) * 4096 + (b1 - 128) * 64 + (b2 - 128)
              in if is_cont b1 \<and> is_cont b2 \<and> 2048 \<le> c \<and> \<not> is_surrogate c
                 then cons_opt c (utf8_decode r) else None)
         | _ \<Rightarrow> None)
      else if 240 \<le> b0 \<and> b0 < 245 then
        (case bs of
           b1 # b2 # b3 # r \<Rightarrow>
             (let c = (b0 - 240) * 262144 + (b1 - 128) * 4096 + (b2 - 128) * 64 + (b3 - 128)
              in if is_cont b1 \<and> is_cont b2 \<and> is_cont b3 \<and> 65536 \<le> c \<and> c < 1114112
                 then cons_opt c (utf8_decode r) else None)
         | _ \<Rightarrow> None)
      else None)"

definition decode :: "bytes \<Rightarrow> py_error + ustr" where
  "decode data =
     (case utf8_decode (map of_char data) of
        None \<Rightarrow> Inl UnicodeDecodeError
      | Some s \<Rightarrow> Inr s)"

definition utf8_encode_cp :: "nat \<Rightarrow> nat list option" where
  "utf8_encode_cp c =
     (if c < 128 then Some [c]
      else if c < 2048 then Some [192 + c div 64, 128 + c mod 64]
      else if c < 65536 then
        (if is_surrogate c then None
         else Some [224 + c div 4096, 128 + (c div 64) mod 64, 128 + c mod 64])
      else if c < 1114112 then
        Some [240 + c div 262144, 128 + (c div 4096) mod 64, 128 + (c div 64) mod 64,
              128 + c mod 64]
      else None)"

fun utf8_encode :: "ustr \<Rightarrow> nat list option" where
  "utf8_encode [] = Some []"
| "utf8_encode (c # cs) =
     (case utf8_encode_cp c of
        None \<Rightarrow> None
      | Some bs \<Rightarrow> (case utf8_encode cs of None \<Rightarrow> None | Some r \<Rightarrow> Some (bs @ r)))"

definition encode :: "ustr \<Rightarrow> py_error + bytes" where
  "encode s =
     (case utf8_encode s of
        None \<Rightarrow> Inl UnicodeEncodeError
      | Some bs \<Rightarrow> Inr (map char_of bs))"

subsection \<open>\<open>str\<close> methods\<close>

text \<open>
  \<open>str.splitlines()\<close> ends a line at \<open>\r\n\<close>, \<open>\n\<close>, \<open>\r\<close>, \<open>\v\<close>, \<open>\f\<close>, the separators
  \<open>0x1C\<close> to \<open>0x1E\<close>, \<open>0x85\<close>, \<open>0x2028\<close> and \<open>0x2029\<close>. The terminators are dropped and a
  terminator at the very end opens no further line.
\<close>

definition is_linebreak :: "nat \<Rightarrow> bool" where
  "is_linebreak c \<longleftrightarrow>
     c = 10 \<or> c = 11 \<or> c = 12 \<or> c = 13 \<or> c = 28 \<or> c = 29 \<or> c = 30 \<or> c = 133
     \<or> c = 8232 \<or> c = 8233"

fun splitlines_from :: "ustr \<Rightarrow> ustr \<Rightarrow> ustr list" where
  "splitlines_from cur [] = (if cur = [] then [] else [cur])"
| "splitlines_from cur [c] =
     (if is_linebreak c then [cur] else [cur @ [c]])"
| "splitlines_from cur (c # d # cs) =
     (if c = 13 \<and> d = 10 then cur # splitlines_from [] cs
      else if is_linebreak c then cur # splitlines_from [] (d # cs)
      else splitlines_from (cur @ [c]) (d # cs))"

definition splitlines :: "ustr \<Rightarrow> ustr list" where
  "splitlines s = splitlines_from [] s"

text \<open>
  The white space of \<open>str.split()\<close> and \<open>str.strip()\<close> without argument: the code points
  for which \<open>str.isspace\<close> holds.
\<close>

definition is_space :: "nat \<Rightarrow> bool" where
  "is_space c \<longleftrightarrow>
     (9 \<le> c \<and> c \<le> 13) \<or> (28 \<le> c \<and> c \<le> 32) \<or> c = 133 \<or> c = 160 \<or> c = 5760
     \<or> (8192 \<le> c \<and> c \<le> 8202) \<or> c = 8232 \<or> c = 8233 \<or> c = 8239 \<or> c = 8287
     \<or> c = 12288"

definition strip :: "ustr \<Rightarrow> ustr" where
  "strip s = rev (dropWhile is_space (rev (dropWhile is_space s)))"

text \<open>\<open>s.split()\<close>: the maximal runs of characters that are not white space.\<close>

fun split_from :: "ustr \<Rightarrow> ustr \<Rightarrow> ustr list" where
  "split_from cur [] = (if cur = [] then [] else [cur])"
| "split_from cur (c # cs) =
     (if is_space c then (if cur = [] then split_from [] cs else cur # split_from [] cs)
      else split_from (cur @ [c]) cs)"

definition split_ws :: "ustr \<Rightarrow> ustr list" where
  "split_ws s = split_from [] s"

text \<open>
  \<open>s.split(sep, maxsplit=1)\<close> for a separator of one character: one element when the
  separator does not occur, else the text before its first occurrence and the text
  after it.
\<close>

definition split_max1 :: "nat \<Rightarrow> ustr \<Rightarrow> ustr list" where
  "split_max1 sep s =
     (if sep \<in> set s then [takeWhile (\<lambda>c. c \<noteq> sep) s, tl (dropWhile (\<lambda>c. c \<noteq> sep) s)]
      else [s])"

text \<open>
  \<open>str.lower()\<close>, as CPython 3.11 computes it from the Unicode database 14.0.0. The
  tables hold the code points from \<open>0x80\<close> on; Basic Latin is written out.

  \<open>lower_ranges\<close> lists the simple lower case mappings as \<open>(lo, hi, step, target)\<close>: a
  code point \<open>c\<close> in \<open>lo..hi\<close> at a multiple of \<open>step\<close> from \<open>lo\<close> maps to
  \<open>target + (c - lo)\<close>. \<open>cased_ranges\<close> and \<open>case_ignorable_ranges\<close> list the code points
  with the properties Cased and Case_Ignorable, as closed intervals.
\<close>

definition lower_ranges :: "(nat \<times> nat \<times> nat \<times> nat) list" where
  "lower_ranges =
    [(192, 214, 1, 224), (216, 222, 1, 248), (256, 302, 2, 257), (306, 310, 2, 307),
     (313, 327, 2, 314), (330, 374, 2, 331), (376, 376, 1, 255), (377, 381, 2, 378),
     (385, 385, 1, 595), (386, 388, 2, 387), (390, 390, 1, 596), (391, 391, 1, 392),
     (393, 394, 1, 598), (395, 395, 1, 396), (398, 398, 1, 477), (399, 399, 1, 601),
     (400, 400, 1, 603), (401, 401, 1, 402), (403, 403, 1, 608), (404, 404, 1, 611),
     (406, 406, 1, 617), (407, 407, 1, 616), (408, 408, 1, 409), (412, 412, 1, 623),
     (413, 413, 1, 626), (415, 415, 1, 629), (416, 420, 2, 417), (422, 422, 1, 640),
     (423, 423, 1, 424), (425, 425, 1, 643), (428, 428, 1, 429), (430, 430, 1, 648),
     (431, 431, 1, 432), (433, 434, 1, 650), (435, 437, 2, 436), (439, 439, 1, 658),
     (440, 440, 1, 441), (444, 444, 1, 445), (452, 452, 1, 454), (453, 453, 1, 454),
     (455, 455, 1, 457), (456, 456, 1, 457), (458, 458, 1, 460), (459, 475, 2, 460),
     (478, 494, 2, 479), (497, 497, 1, 499), (498, 500, 2, 499), (502, 502, 1, 405),
     (503, 503, 1, 447), (504, 542, 2, 505), (544, 544, 1, 414), (546, 562, 2, 547),
     (570, 570, 1, 11365), (571, 571, 1, 572), (573, 573, 1, 410), (574, 574, 1, 11366),
     (577, 577, 1, 578), (579, 579, 1, 384), (580, 580, 1, 649), (581, 581, 1, 652),
     (582, 590, 2, 583), (880, 882, 2, 881), (886, 886, 1, 887), (895, 895, 1, 1011),
     (902, 902, 1, 940), (904, 906, 1, 941), (908, 908, 1, 972), (910, 911, 1, 973),
     (913, 929, 1, 945), (931, 939, 1, 963), (975, 975, 1, 983), (984, 1006, 2, 985),
     (1012, 1012, 1, 952), (1015, 1015, 1, 1016), (1017, 1017, 1, 1010), (1018, 1018, 1, 1019),
     (1021, 1023, 1, 891), (1024, 1039, 1, 1104), (1040, 1071, 1, 1072), (1120, 1152, 2, 1121),
     (1162, 1214, 2, 1163), (1216, 1216, 1, 1231), (1217, 1229, 2, 1218),
     (1232, 1326, 2, 1233), (1329, 1366, 1, 1377), (4256, 4293, 1, 11520),
     (4295, 4295, 1, 11559), (4301, 4301, 1, 11565), (5024, 5103, 1, 43888),
     (5104, 5109, 1, 5112), (7312, 7354, 1, 4304), (7357, 7359, 1, 4349),
     (7680, 7828, 2, 7681), (7838, 7838, 1, 223), (7840, 7934, 2, 7841), (7944, 7951, 1, 7936),
     (7960, 7965, 1, 7952), (7976, 7983, 1, 7968), (7992, 7999, 1, 7984),
     (8008, 8013, 1, 8000), (8025, 8031, 2, 8017), (8040, 8047, 1, 8032),
     (8072, 8079, 1, 8064), (8088, 8095, 1, 8080), (8104, 8111, 1, 8096),
     (8120, 8121, 1, 8112), (8122, 8123, 1, 8048), (8124, 8124, 1, 8115),
     (8136, 8139, 1, 8050), (8140, 8140, 1, 8131), (8152, 8153, 1, 8144),
     (8154, 8155, 1, 8054), (8168, 8169, 1, 8160), (8170, 8171, 1, 8058),
     (8172, 8172, 1, 8165), (8184, 8185, 1, 8056), (8186, 8187, 1, 8060),
     (8188, 8188, 1, 8179), (8486, 8486, 1, 969), (8490, 8490, 1, 107), (8491, 8491, 1, 229),
     (8498, 8498, 1, 8526), (8544, 8559, 1, 8560), (8579, 8579, 1, 8580),
     (9398, 9423, 1, 9424), (11264, 11311, 1, 11312), (11360, 11360, 1, 11361),
     (11362, 11362, 1, 619), (11363, 11363, 1, 7549), (11364, 11364, 1, 637),
     (11367, 11371, 2, 11368), (11373, 11373, 1, 593), (11374, 11374, 1, 625),
     (11375, 11375, 1, 592), (11376, 11376, 1, 594), (11378, 11378, 1, 11379),
     (11381, 11381, 1, 11382), (11390, 11391, 1, 575), (11392, 11490, 2, 11393),
     (11499, 11501, 2, 11500), (11506, 11506, 1, 11507), (42560, 42604, 2, 42561),
     (42624, 42650, 2, 42625), (42786, 42798, 2, 42787), (42802, 42862, 2, 42803),
     (42873, 42875, 2, 42874), (42877, 42877, 1, 7545), (42878, 42886, 2, 42879),
     (42891, 42891, 1, 42892), (42893, 42893, 1, 613), (42896, 42898, 2, 42897),
     (42902, 42920, 2, 42903), (42922, 42922, 1, 614), (42923, 42923, 1, 604),
     (42924, 42924, 1, 609), (42925, 42925, 1, 620), (42926, 42926, 1, 618),
     (42928, 42928, 1, 670), (42929, 42929, 1, 647), (42930, 42930, 1, 669),
     (42931, 42931, 1, 43859), (42932, 42946, 2, 42933), (42948, 42948, 1, 42900),
     (42949, 42949, 1, 642), (42950, 42950, 1, 7566), (42951, 42953, 2, 42952),
     (42960, 42960, 1, 42961), (42966, 42968, 2, 42967), (42997, 42997, 1, 42998),
     (65313, 65338, 1, 65345), (66560, 66599, 1, 66600), (66736, 66771, 1, 66776),
     (66928, 66964, 2, 66967), (66929, 66938, 1, 66968), (66941, 66954, 1, 66980),
     (66957, 66962, 1, 66996), (66965, 66965, 1, 67004), (68736, 68786, 1, 68800),
     (71840, 71871, 1, 71872), (93760, 93791, 1, 93792), (125184, 125217, 1, 125218)]"

definition cased_ranges :: "(nat \<times> nat) list" where
  "cased_ranges =
    [(170, 170), (181, 181), (186, 186), (192, 214), (216, 246), (248, 442), (444, 447),
     (452, 659), (661, 696), (704, 705), (736, 740), (837, 837), (880, 883), (886, 887),
     (890, 893), (895, 895), (902, 902), (904, 906), (908, 908), (910, 929), (931, 1013),
     (1015, 1153), (1162, 1327), (1329, 1366), (1376, 1416), (4256, 4293), (4295, 4295),
     (4301, 4301), (4304, 4346), (4349, 4351), (5024, 5109), (5112, 5117), (7296, 7304),
     (7312, 7354), (7357, 7359), (7424, 7615), (7680, 7957), (7960, 7965), (7968, 8005),
     (8008, 8013), (8016, 8023), (8025, 8025), (8027, 8027), (8029, 8029), (8031, 8061),
     (8064, 8116), (8118, 8124), (8126, 8126), (8130, 8132), (8134, 8140), (8144, 8147),
     (8150, 8155), (8160, 8172), (8178, 8180), (8182, 8188), (8305, 8305), (8319, 8319),
     (8336, 8348), (8450, 8450), (8455, 8455), (8458, 8467), (8469, 8469), (8473, 8477),
     (8484, 8484), (8486, 8486), (8488, 8488), (8490, 8493), (8495, 8500), (8505, 8505),
     (8508, 8511), (8517, 8521), (8526, 8526), (8544, 8575), (8579, 8580), (9398, 9449),
     (11264, 11492), (11499, 11502), (11506, 11507), (11520, 11557), (11559, 11559),
     (11565, 11565), (42560, 42605), (42624, 42653), (42786, 42887), (42891, 42894),
     (42896, 42954), (42960, 42961), (42963, 42963), (42965, 42969), (42997, 42998),
     (43000, 43002), (43824, 43866), (43868, 43880), (43888, 43967), (64256, 64262),
     (64275, 64279), (65313, 65338), (65345, 65370), (66560, 66639), (66736, 66771),
     (66776, 66811), (66928, 66938), (66940, 66954), (66956, 66962), (66964, 66965),
     (66967, 66977), (66979, 66993), (66995, 67001), (67003, 67004), (67456, 67456),
     (67459, 67461), (67463, 67504), (67506, 67514), (68736, 68786), (68800, 68850),
     (71840, 71903), (93760, 93823), (119808, 119892), (119894, 119964), (119966, 119967),
     (119970, 119970), (119973, 119974), (119977, 119980), (119982, 119993), (119995, 119995),
     (119997, 120003), (120005, 120069), (120071, 120074), (120077, 120084), (120086, 120092),
     (120094, 120121), (120123, 120126), (120128, 120132), (120134, 120134), (120138, 120144),
     (120146, 120485), (120488, 120512), (120514, 120538), (120540, 120570), (120572, 120596),
     (120598, 120628), (120630, 120654), (120656, 120686), (120688, 120712), (120714, 120744),
     (120746, 120770), (120772, 120779), (122624, 122633), (122635, 122654), (125184, 125251),
     (127280, 127305), (127312, 127337), (127344, 127369)]"

definition case_ignorable_ranges :: "(nat \<times> nat) list" where
  "case_ignorable_ranges =
    [(168, 168), (173, 173), (175, 175), (180, 180), (183, 184), (688, 879), (884, 885),
     (890, 890), (900, 901), (903, 903), (1155, 1161), (1369, 1369), (1375, 1375),
     (1425, 1469), (1471, 1471), (1473, 1474), (1476, 1477), (1479, 1479), (1524, 1524),
     (1536, 1541), (1552, 1562), (1564, 1564), (1600, 1600), (1611, 1631), (1648, 1648),
     (1750, 1757), (1759, 1768), (1770, 1773), (1807, 1807), (1809, 1809), (1840, 1866),
     (1958, 1968), (2027, 2037), (2042, 2042), (2045, 2045), (2070, 2093), (2137, 2139),
     (2184, 2184), (2192, 2193), (2200, 2207), (2249, 2306), (2362, 2362), (2364, 2364),
     (2369, 2376), (2381, 2381), (2385, 2391), (2402, 2403), (2417, 2417), (2433, 2433),
     (2492, 2492), (2497, 2500), (2509, 2509), (2530, 2531), (2558, 2558), (2561, 2562),
     (2620, 2620), (2625, 2626), (2631, 2632), (2635, 2637), (2641, 2641), (2672, 2673),
     (2677, 2677), (2689, 2690), (2748, 2748), (2753, 2757), (2759, 2760), (2765, 2765),
     (2786, 2787), (2810, 2815), (2817, 2817), (2876, 2876), (2879, 2879), (2881, 2884),
     (2893, 2893), (2901, 2902), (2914, 2915), (2946, 2946), (3008, 3008), (3021, 3021),
     (3072, 3072), (3076, 3076), (3132, 3132), (3134, 3136), (3142, 3144), (3146, 3149),
     (3157, 3158), (3170, 3171), (3201, 3201), (3260, 3260), (3263, 3263), (3270, 3270),
     (3276, 3277), (3298, 3299), (3328, 3329), (3387, 3388), (3393, 3396), (3405, 3405),
     (3426, 3427), (3457, 3457), (3530, 3530), (3538, 3540), (3542, 3542), (3633, 3633),
     (3636, 3642), (3654, 3662), (3761, 3761), (3764, 3772), (3782, 3782), (3784, 3789),
     (3864, 3865), (3893, 3893), (3895, 3895), (3897, 3897), (3953, 3966), (3968, 3972),
     (3974, 3975), (3981, 3991), (3993, 4028), (4038, 4038), (4141, 4144), (4146, 4151),
     (4153, 4154), (4157, 4158), (4184, 4185), (4190, 4192), (4209, 4212), (4226, 4226),
     (4229, 4230), (4237, 4237), (4253, 4253), (4348, 4348), (4957, 4959), (5906, 5908),
     (5938, 5939), (5970, 5971), (6002, 6003), (6068, 6069), (6071, 6077), (6086, 6086),
     (6089, 6099), (6103, 6103), (6109, 6109), (6155, 6159), (6211, 6211), (6277, 6278),
     (6313, 6313), (6432, 6434), (6439, 6440), (6450, 6450), (6457, 6459), (6679, 6680),
     (6683, 6683), (6742, 6742), (6744, 6750), (6752, 6752), (6754, 6754), (6757, 6764),
     (6771, 6780), (6783, 6783), (6823, 6823), (6832, 6862), (6912, 6915), (6964, 6964),
     (6966, 6970), (6972, 6972), (6978, 6978), (7019, 7027), (7040, 7041), (7074, 7077),
     (7080, 7081), (7083, 7085), (7142, 7142), (7144, 7145), (7149, 7149), (7151, 7153),
     (7212, 7219), (7222, 7223), (7288, 7293), (7376, 7378), (7380, 7392), (7394, 7400),
     (7405, 7405), (7412, 7412), (7416, 7417), (7468, 7530), (7544, 7544), (7579, 7679),
     (8125, 8125), (8127, 8129), (8141, 8143), (8157, 8159), (8173, 8175), (8189, 8190),
     (8203, 8207), (8216, 8217), (8228, 8228), (8231, 8231), (8234, 8238), (8288, 8292),
     (8294, 8303), (8305, 8305), (8319, 8319), (8336, 8348), (8400, 8432), (11388, 11389),
     (11503, 11505), (11631, 11631), (11647, 11647), (11744, 11775), (11823, 11823),
     (12293, 12293), (12330, 12333), (12337, 12341), (12347, 12347), (12441, 12446),
     (12540, 12542), (40981, 40981), (42232, 42237), (42508, 42508), (42607, 42610),
     (42612, 42621), (42623, 42623), (42652, 42655), (42736, 42737), (42752, 42785),
     (42864, 42864), (42888, 42890), (42994, 42996), (43000, 43001), (43010, 43010),
     (43014, 43014), (43019, 43019), (43045, 43046), (43052, 43052), (43204, 43205),
     (43232, 43249), (43263, 43263), (43302, 43309), (43335, 43345), (43392, 43394),
     (43443, 43443), (43446, 43449), (43452, 43453), (43471, 43471), (43493, 43494),
     (43561, 43566), (43569, 43570), (43573, 43574), (43587, 43587), (43596, 43596),
     (43632, 43632), (43644, 43644), (43696, 43696), (43698, 43700), (43703, 43704),
     (43710, 43711), (43713, 43713), (43741, 43741), (43756, 43757), (43763, 43764),
     (43766, 43766), (43867, 43871), (43881, 43883), (44005, 44005), (44008, 44008),
     (44013, 44013), (64286, 64286), (64434, 64450), (65024, 65039), (65043, 65043),
     (65056, 65071), (65106, 65106), (65109, 65109), (65279, 65279), (65287, 65287),
     (65294, 65294), (65306, 65306), (65342, 65342), (65344, 65344), (65392, 65392),
     (65438, 65439), (65507, 65507), (65529, 65531), (66045, 66045), (66272, 66272),
     (66422, 66426), (67456, 67461), (67463, 67504), (67506, 67514), (68097, 68099),
     (68101, 68102), (68108, 68111), (68152, 68154), (68159, 68159), (68325, 68326),
     (68900, 68903), (69291, 69292), (69446, 69456), (69506, 69509), (69633, 69633),
     (69688, 69702), (69744, 69744), (69747, 69748), (69759, 69761), (69811, 69814),
     (69817, 69818), (69821, 69821), (69826, 69826), (69837, 69837), (69888, 69890),
     (69927, 69931), (69933, 69940), (70003, 70003), (70016, 70017), (70070, 70078),
     (70089, 70092), (70095, 70095), (70191, 70193), (70196, 70196), (70198, 70199),
     (70206, 70206), (70367, 70367), (70371, 70378), (70400, 70401), (70459, 70460),
     (70464, 70464), (70502, 70508), (70512, 70516), (70712, 70719), (70722, 70724),
     (70726, 70726), (70750, 70750), (70835, 70840), (70842, 70842), (70847, 70848),
     (70850, 70851), (71090, 71093), (71100, 71101), (71103, 71104), (71132, 71133),
     (71219, 71226), (71229, 71229), (71231, 71232), (71339, 71339), (71341, 71341),
     (71344, 71349), (71351, 71351), (71453, 71455), (71458, 71461), (71463, 71467),
     (71727, 71735), (71737, 71738), (71995, 71996), (71998, 71998), (72003, 72003),
     (72148, 72151), (72154, 72155), (72160, 72160), (72193, 72202), (72243, 72248),
     (72251, 72254), (72263, 72263), (72273, 72278), (72281, 72283), (72330, 72342),
     (72344, 72345), (72752, 72758), (72760, 72765), (72767, 72767), (72850, 72871),
     (72874, 72880), (72882, 72883), (72885, 72886), (73009, 73014), (73018, 73018),
     (73020, 73021), (73023, 73029), (73031, 73031), (73104, 73105), (73109, 73109),
     (73111, 73111), (73459, 73460), (78896, 78904), (92912, 92916), (92976, 92982),
     (92992, 92995), (94031, 94031), (94095, 94111), (94176, 94177), (94179, 94180),
     (110576, 110579), (110581, 110587), (110589, 110590), (113821, 113822), (113824, 113827),
     (118528, 118573), (118576, 118598), (119143, 119145), (119155, 119170), (119173, 119179),
     (119210, 119213), (119362, 119364), (121344, 121398), (121403, 121452), (121461, 121461),
     (121476, 121476), (121499, 121503), (121505, 121519), (122880, 122886), (122888, 122904),
     (122907, 122913), (122915, 122916), (122918, 122922), (123184, 123197), (123566, 123566),
     (123628, 123631), (125136, 125142), (125252, 125259), (127995, 127999), (917505, 917505),
     (917536, 917631), (917760, 917999)]"

definition in_ranges :: "nat \<Rightarrow> (nat \<times> nat) list \<Rightarrow> bool" where
  "in_ranges c rs = list_ex (\<lambda>(lo, hi). lo \<le> c \<and> c \<le> hi) rs"

definition is_cased :: "nat \<Rightarrow> bool" where
  "is_cased c \<longleftrightarrow> (65 \<le> c \<and> c \<le> 90) \<or> (97 \<le> c \<and> c \<le> 122) \<or> in_ranges c cased_ranges"

definition is_case_ignorable :: "nat \<Rightarrow> bool" where
  "is_case_ignorable c \<longleftrightarrow>
     c = 39 \<or> c = 46 \<or> c = 58 \<or> c = 94 \<or> c = 96 \<or> in_ranges c case_ignorable_ranges"

text \<open>
  The full lower case mapping of one code point: one code point, but for U+0130, which
  maps to \<open>i\<close> and U+0307.
\<close>

definition lower_cp :: "nat \<Rightarrow> ustr" where
  "lower_cp c =
     (if c < 128 then [if 65 \<le> c \<and> c \<le> 90 then c + 32 else c]
      else if c = 304 then [105, 775]
      else
        (case find (\<lambda>(lo, hi, step, target). lo \<le> c \<and> c \<le> hi \<and> (c - lo) mod step = 0)
                lower_ranges of
           None \<Rightarrow> [c]
         | Some (lo, hi, step, target) \<Rightarrow> [target + (c - lo)]))"

text \<open>
  The capital sigma U+03A3 maps to the final sigma U+03C2 when a cased letter stands
  before it and none after it, case-ignorable characters skipped on both sides, and to
  U+03C3 otherwise. \<open>before\<close> holds the characters in front, the nearest first.
\<close>

definition final_sigma :: "ustr \<Rightarrow> ustr \<Rightarrow> bool" where
  "final_sigma before after \<longleftrightarrow>
     (case dropWhile is_case_ignorable before of [] \<Rightarrow> False | b # _ \<Rightarrow> is_cased b)
     \<and> (case dropWhile is_case_ignorable after of [] \<Rightarrow> True | a # _ \<Rightarrow> \<not> is_cased a)"

fun lower_from :: "ustr \<Rightarrow> ustr \<Rightarrow> ustr" where
  "lower_from before [] = []"
| "lower_from before (c # after) =
     (if c = 931 then [if final_sigma before after then 962 else 963] else lower_cp c)
     @ lower_from (c # before) after"

definition lower :: "ustr \<Rightarrow> ustr" where
  "lower s = lower_from [] s"

text \<open>\<open>sep.join(xs)\<close>.\<close>

fun join :: "ustr \<Rightarrow> ustr list \<Rightarrow> ustr" where
  "join sep [] = []"
| "join sep [x] = x"
| "join sep (x # y # ys) = x @ sep @ join sep (y # ys)"

text \<open>
  The decimal digits of Unicode 14.0.0 come in blocks of ten consecutive code points with
  the values 0 to 9. \<open>decimal_blocks\<close> lists the first code point of every block outside
  Basic Latin.
\<close>

definition decimal_blocks :: "nat list" where
  "decimal_blocks =
    [1632, 1776, 1984, 2406, 2534, 2662, 2790, 2918, 3046, 3174, 3302, 3430, 3558, 3664, 3792,
     3872, 4160, 4240, 6112, 6160, 6470, 6608, 6784, 6800, 6992, 7088, 7232, 7248, 42528,
     43216, 43264, 43472, 43504, 43600, 44016, 65296, 66720, 68912, 69734, 69872, 69942, 70096,
     70384, 70736, 70864, 71248, 71360, 71472, 71904, 72016, 72784, 73040, 73120, 92768, 92864,
     93008, 120782, 120792, 120802, 120812, 120822, 123200, 123632, 125264, 130032]"

definition decimal_value :: "nat \<Rightarrow> nat option" where
  "decimal_value c =
     (if 48 \<le> c \<and> c \<le> 57 then Some (c - 48)
      else if c < 128 then None
      else
        (case find (\<lambda>b. b \<le> c \<and> c < b + 10) decimal_blocks of
           None \<Rightarrow> None
         | Some b \<Rightarrow> Some (c - b)))"

definition is_decimal :: "nat \<Rightarrow> bool" where
  "is_decimal c \<longleftrightarrow> decimal_value c \<noteq> None"

text \<open>
  \<open>int(s)\<close> for a \<open>str\<close>, as CPython 3.11 computes it. A text that is not ASCII is first
  rewritten: a character below \<open>0x7F\<close> stays, a white space becomes a blank, a decimal
  digit becomes its ASCII digit, and at any other character the text ends in \<open>?\<close>. Of
  the result, the white space of C (\<open>\t\<close>, \<open>\n\<close>, \<open>\v\<close>, \<open>\f\<close>, \<open>\r\<close> and the blank) is dropped
  at both ends, one sign may precede the digits, and single underscores may stand between
  digits. Anything else raises \<open>ValueError\<close>, and so does a numeral of more than 4300
  digits, the default of \<open>sys.get_int_max_str_digits()\<close>.
\<close>

definition is_digit :: "nat \<Rightarrow> bool" where
  "is_digit c \<longleftrightarrow> 48 \<le> c \<and> c \<le> 57"

definition is_int_space :: "nat \<Rightarrow> bool" where
  "is_int_space c \<longleftrightarrow> (9 \<le> c \<and> c \<le> 13) \<or> c = 32"

fun transform_decimal_and_space :: "ustr \<Rightarrow> ustr" where
  "transform_decimal_and_space [] = []"
| "transform_decimal_and_space (c # cs) =
     (if c < 127 then c # transform_decimal_and_space cs
      else if is_space c then 32 # transform_decimal_and_space cs
      else
        (case decimal_value c of
           None \<Rightarrow> [63]
         | Some d \<Rightarrow> (48 + d) # transform_decimal_and_space cs))"

definition to_ascii :: "ustr \<Rightarrow> ustr" where
  "to_ascii s = (if list_all (\<lambda>c. c < 128) s then s else transform_decimal_and_space s)"

fun digits_value :: "nat \<Rightarrow> bool \<Rightarrow> ustr \<Rightarrow> nat option" where
  "digits_value acc after_digit [] = (if after_digit then Some acc else None)"
| "digits_value acc after_digit (c # cs) =
     (if is_digit c then digits_value (acc * 10 + (c - 48)) True cs
      else if c = 95 \<and> after_digit then digits_value acc False cs
      else None)"

definition int_max_str_digits :: nat where
  "int_max_str_digits = 4300"

definition py_int :: "ustr \<Rightarrow> py_error + int" where
  "py_int s =
     (let t = rev (dropWhile is_int_space (rev (dropWhile is_int_space (to_ascii s))));
          neg = (t \<noteq> [] \<and> hd t = 45);
          ds = (if t \<noteq> [] \<and> (hd t = 45 \<or> hd t = 43) then tl t else t)
      in case digits_value 0 False ds of
           None \<Rightarrow> Inl ValueError
         | Some n \<Rightarrow>
             if int_max_str_digits < length (filter is_digit ds) then Inl ValueError
             else Inr (if neg then - int n else int n))"

text \<open>\<open>str(n)\<close> for an \<open>int\<close>, as an f-string formats it.\<close>

fun str_nat :: "nat \<Rightarrow> ustr" where
  "str_nat n = (if n < 10 then [48 + n] else str_nat (n div 10) @ [48 + n mod 10])"

definition str_int :: "int \<Rightarrow> ustr" where
  "str_int i = (if i < 0 then 45 # str_nat (nat (- i)) else str_nat (nat i))"

section \<open>The module constants\<close>

definition SIP_PORT :: int where
  "SIP_PORT = 5060"

definition CRLF :: ustr where
  "CRLF = [13, 10]"

definition SDP_USERNAME :: ustr where
  "SDP_USERNAME = ascii ''homeassistant''"

definition SDP_ID :: ustr where
  "SDP_ID = concat (map (\<lambda>c. str_nat (of_char c)) ''hass'')"

definition OPUS_PAYLOAD :: ustr where
  "OPUS_PAYLOAD = ascii ''123''"

text \<open>
  \<open>_SIP_IP.match(s)\<close> for the pattern
  \<^verbatim>\<open>^<sip:(\d{1,3}\.\d{1,3}\.\d{1,3}\.\d{1,3}):\d+>(;.+)?$\<close>,
  returning group 1 or \<open>None\<close>. Each run of digits is followed by a character that
  is no digit, so backtracking into a run never helps: a run of one to three digits is
  taken whole. \<open>\d\<close> matches every decimal digit of Unicode, \<open>.\<close> matches every character
  but \<open>\n\<close>, and \<open>$\<close> matches at the end and before a final \<open>\n\<close>.
\<close>

definition strip_prefix :: "ustr \<Rightarrow> ustr \<Rightarrow> ustr option" where
  "strip_prefix p s = (if take (length p) s = p then Some (drop (length p) s) else None)"

definition take_digits :: "nat \<Rightarrow> ustr \<Rightarrow> (ustr \<times> ustr) option" where
  "take_digits bound s =
     (let ds = takeWhile is_decimal s
      in if 1 \<le> length ds \<and> length ds \<le> bound then Some (ds, dropWhile is_decimal s)
         else None)"

definition params_ok :: "ustr \<Rightarrow> bool" where
  "params_ok r =
     (case (if r \<noteq> [] \<and> last r = 10 then butlast r else r) of
        [] \<Rightarrow> True
      | c # t \<Rightarrow> c = 59 \<and> t \<noteq> [] \<and> 10 \<notin> set t)"

definition SIP_IP_match :: "ustr \<Rightarrow> ustr option" where
  "SIP_IP_match s = do {
     s1 \<leftarrow> strip_prefix (ascii ''<sip:'') s;
     (a, s2) \<leftarrow> take_digits 3 s1;
     s3 \<leftarrow> strip_prefix (ascii ''.'') s2;
     (b, s4) \<leftarrow> take_digits 3 s3;
     s5 \<leftarrow> strip_prefix (ascii ''.'') s4;
     (c, s6) \<leftarrow> take_digits 3 s5;
     s7 \<leftarrow> strip_prefix (ascii ''.'') s6;
     (d, s8) \<leftarrow> take_digits 3 s7;
     s9 \<leftarrow> strip_prefix (ascii '':'') s8;
     (port, s10) \<leftarrow> take_digits (length s9) s9;
     r \<leftarrow> strip_prefix (ascii ''>'') s10;
     if params_ok r
     then Some (a @ ascii ''.'' @ b @ ascii ''.'' @ c @ ascii ''.'' @ d)
     else None
   }"

section \<open>\<open>SIPDatagramProtocol._parse_sip\<close>\<close>

text \<open>
  The loop over \<open>enumerate(lines)\<close>. Its state is \<open>(method, headers, offset)\<close>; the result
  is the state at the \<open>break\<close> or after the last line. \<open>line.split()[0]\<close> raises
  \<open>IndexError\<close> on a first line without a token, and unpacking \<open>line.split(":", maxsplit=1)\<close>
  into two names raises \<open>ValueError\<close> on a line without a colon.
\<close>

type_synonym parse_state = "ustr option \<times> (ustr \<rightharpoonup> ustr) \<times> nat"

fun parse_loop :: "nat \<Rightarrow> ustr list \<Rightarrow> parse_state \<Rightarrow> py_error + parse_state" where
  "parse_loop i [] st = Inr st"
| "parse_loop i (line # rest) (method, headers, offset) =
     (let offset' = (if line \<noteq> [] then offset + (length line + length CRLF) else offset)
      in if i = 0 then
           (case split_ws line of
              [] \<Rightarrow> Inl IndexError
            | tok # _ \<Rightarrow> parse_loop (Suc i) rest (Some tok, headers, offset'))
         else if line = [] then Inr (method, headers, offset')
         else
           (case split_max1 58 line of
              [key, val] \<Rightarrow>
                parse_loop (Suc i) rest (method, headers(lower key \<mapsto> strip val), offset')
            | _ \<Rightarrow> Inl ValueError))"

definition parse_sip :: "ustr \<Rightarrow> py_error + (ustr option \<times> (ustr \<rightharpoonup> ustr) \<times> ustr)" where
  "parse_sip message =
     (case parse_loop 0 (splitlines message) (None, Map.empty, 0) of
        Inl e \<Rightarrow> Inl e
      | Inr (method, headers, offset) \<Rightarrow> Inr (method, headers, drop offset message))"

section \<open>Statements that may raise\<close>

text \<open>Sequencing of statements that may raise: the first exception ends the block.\<close>

definition bind_err :: "py_error + 'a \<Rightarrow> ('a \<Rightarrow> py_error + 'b) \<Rightarrow> py_error + 'b" where
  "bind_err m f = (case m of Inl e \<Rightarrow> Inl e | Inr x \<Rightarrow> f x)"

text \<open>\<open>a, b = xs\<close> raises \<open>ValueError\<close> unless \<open>xs\<close> has two elements.\<close>

definition unpack2 :: "'a list \<Rightarrow> py_error + ('a \<times> 'a)" where
  "unpack2 xs = (case xs of [a, b] \<Rightarrow> Inr (a, b) | _ \<Rightarrow> Inl ValueError)"

text \<open>\<open>xs[i]\<close> for \<open>i \<ge> 0\<close> raises \<open>IndexError\<close> out of range.\<close>

definition index :: "'a list \<Rightarrow> nat \<Rightarrow> py_error + 'a" where
  "index xs i = (if i < length xs then Inr (xs ! i) else Inl IndexError)"

text \<open>\<open>d[k]\<close> raises \<open>KeyError\<close> on a missing key.\<close>

definition getitem :: "('k \<rightharpoonup> 'v) \<Rightarrow> 'k \<Rightarrow> py_error + 'v" where
  "getitem d k = (case d k of None \<Rightarrow> Inl KeyError | Some v \<Rightarrow> Inr v)"

text \<open>\<open>assert b\<close>, with assertions enabled.\<close>

definition assert :: "bool \<Rightarrow> py_error + unit" where
  "assert b = (if b then Inr () else Inl AssertionError)"

section \<open>\<open>SIPDatagramProtocol.answer\<close>\<close>

text \<open>
  The protocol object holds the transport, \<open>None\<close> until \<open>connection_made\<close>. A transport
  is modelled by the datagrams handed to \<open>sendto\<close>, each with its destination.
\<close>

type_synonym transport = "(bytes \<times> (ustr \<times> int)) list"

record SIPDatagramProtocol =
  transport :: "transport option"

definition init :: SIPDatagramProtocol where
  "init = \<lparr>transport = None\<rparr>"


definition sendto :: "transport \<Rightarrow> bytes \<Rightarrow> ustr \<times> int \<Rightarrow> transport" where
  "sendto t data addr = t @ [(data, addr)]"

text \<open>Lines 107 to 120: the SDP body.\<close>

definition answer_body :: "ustr \<Rightarrow> int \<Rightarrow> ustr" where
  "answer_body server_ip server_rtp_port =
     join CRLF
       [ascii ''v=0'',
        ascii ''o='' @ SDP_USERNAME @ ascii '' '' @ SDP_ID @ ascii '' 1 IN IP4 '' @ server_ip,
        ascii ''s='' @ SDP_USERNAME @ ascii '' 1.0'',
        ascii ''c=IN IP4 '' @ server_ip,
        ascii ''t=0 0'',
        ascii ''m=audio '' @ str_int server_rtp_port @ ascii '' RTP/AVP '' @ OPUS_PAYLOAD,
        ascii ''a=rtpmap:'' @ OPUS_PAYLOAD @ ascii '' opus/48000/2'',
        ascii ''a=ptime:20'',
        ascii ''a=maxptime:150'',
        ascii ''a=sendrecv'',
        CRLF]"

text \<open>
  Lines 122 to 133: the response headers in insertion order, each value as the f-string
  of line 137 prints it. A missing inbound header raises \<open>KeyError\<close>.
\<close>

definition response_headers :: "(ustr \<rightharpoonup> ustr) \<Rightarrow> ustr \<Rightarrow> py_error + (ustr \<times> ustr) list" where
  "response_headers headers body =
     bind_err (getitem headers (ascii ''via'')) (\<lambda>via.
     bind_err (getitem headers (ascii ''from'')) (\<lambda>from.
     bind_err (getitem headers (ascii ''to'')) (\<lambda>to.
     bind_err (getitem headers (ascii ''call-id'')) (\<lambda>call_id.
     bind_err (getitem headers (ascii ''cseq'')) (\<lambda>cseq.
     bind_err (getitem headers (ascii ''contact'')) (\<lambda>contact.
       Inr [(ascii ''Via'', via),
            (ascii ''From'', from),
            (ascii ''To'', to),
            (ascii ''Call-ID'', call_id),
            (ascii ''Content-Type'', ascii ''application/sdp''),
            (ascii ''Content-Length'', str_int (int (length body))),
            (ascii ''CSeq'', cseq),
            (ascii ''Contact'', contact),
            (ascii ''User-Agent'', SDP_USERNAME @ ascii '' 1.0''),
            (ascii ''Allow'', ascii ''INVITE, ACK, BYE, CANCEL, OPTIONS'')]))))))"

text \<open>Lines 134 to 140: \<open>response_str\<close>.\<close>

definition response_str :: "(ustr \<times> ustr) list \<Rightarrow> ustr \<Rightarrow> ustr" where
  "response_str hs body =
     join CRLF ([ascii ''SIP/2.0 200 OK''] @ map (\<lambda>(key, val). key @ ascii '': '' @ val) hs @ [CRLF])
     @ body"

text \<open>
  \<open>answer\<close> returns the exception it raised or \<open>Inr ()\<close>, with the protocol object
  after the call. Nothing is sent before the only call of \<open>sendto\<close> on line 143.
\<close>

definition answer ::
  "SIPDatagramProtocol \<Rightarrow> (ustr \<rightharpoonup> ustr) \<Rightarrow> ustr \<Rightarrow> int \<Rightarrow> ustr \<Rightarrow> int
   \<Rightarrow> (py_error + unit) \<times> SIPDatagramProtocol" where
  "answer self headers caller_ip caller_sip_port server_ip server_rtp_port =
     (case transport self of
        None \<Rightarrow> (Inl AssertionError, self)
      | Some t \<Rightarrow>
          (let body = answer_body server_ip server_rtp_port
           in case bind_err (response_headers headers body)
                     (\<lambda>hs. encode (response_str hs body)) of
                Inl e \<Rightarrow> (Inl e, self)
              | Inr response_bytes \<Rightarrow>
                  (Inr (),
                   self\<lparr>transport :=
                          Some (sendto t response_bytes (caller_ip, caller_sip_port))\<rparr>)))"

section \<open>\<open>CallInfo\<close> and \<open>SIPDatagramProtocol.datagram_received\<close>\<close>

text \<open>
  One round of the loop over \<open>body_lines\<close> (lines 56 to 62): the state is
  \<open>caller_rtp_port\<close>. Every \<open>m=audio\<close> line assigns it; the loop has no \<open>break\<close>.
\<close>

definition scan_line :: "int option \<Rightarrow> ustr \<Rightarrow> py_error + int option" where
  "scan_line caller_rtp_port line0 =
     (let line = strip line0
      in if line \<noteq> [] then
           bind_err (unpack2 (split_max1 61 line)) (\<lambda>(key, val).
             if key = ascii ''m'' then
               (let parts = split_ws val
                in bind_err (index parts 0) (\<lambda>p0.
                     if p0 = ascii ''audio'' then
                       bind_err (index parts 1) (\<lambda>p1.
                         bind_err (py_int p1) (\<lambda>n. Inr (Some n)))
                     else Inr caller_rtp_port))
             else Inr caller_rtp_port)
         else Inr caller_rtp_port)"

fun scan_body :: "ustr list \<Rightarrow> int option \<Rightarrow> py_error + int option" where
  "scan_body [] caller_rtp_port = Inr caller_rtp_port"
| "scan_body (line # rest) caller_rtp_port =
     bind_err (scan_line caller_rtp_port line) (scan_body rest)"

record CallInfo =
  caller_ip :: ustr
  caller_sip_port :: int
  caller_rtp_port :: int
  server_ip :: ustr
  headers :: "ustr \<rightharpoonup> ustr"

text \<open>
  The body of the \<open>try\<close> statement. \<open>Inr None\<close> is the early \<open>return\<close> for a message
  that is not an INVITE; \<open>Inr (Some c)\<close> is the call \<open>self.on_call(c)\<close>. The condition
  \<open>method and \<dots>\<close> is false for \<open>None\<close> and for the empty string. The locals
  \<open>caller_ip\<close>, \<open>caller_sip_port\<close>, \<open>caller_rtp_port\<close> and \<open>headers\<close> are written \<open>ip\<close>,
  \<open>port\<close>, \<open>rtp_port\<close> and \<open>hdrs\<close>, since the fields of \<open>CallInfo\<close> have taken their names.
\<close>

definition datagram_received_try :: "bytes \<Rightarrow> ustr \<times> int \<Rightarrow> py_error + CallInfo option" where
  "datagram_received_try data addr =
     bind_err (decode data) (\<lambda>message.
     bind_err (parse_sip message) (\<lambda>(method, hdrs, body).
       if (case method of None \<Rightarrow> False | Some m \<Rightarrow> m \<noteq> [] \<and> lower m \<noteq> ascii ''invite'')
       then Inr None
       else
         (let (ip, port) = addr
          in bind_err (scan_body (splitlines body) None) (\<lambda>rtp_port.
             bind_err (assert (rtp_port \<noteq> None)) (\<lambda>_.
             bind_err (getitem hdrs (ascii ''to'')) (\<lambda>to.
             let server_ip_match = SIP_IP_match to
             in bind_err (assert (server_ip_match \<noteq> None)) (\<lambda>_.
                  Inr (Some \<lparr>caller_ip = ip, caller_sip_port = port,
                             caller_rtp_port = the rtp_port,
                             server_ip = the server_ip_match,
                             headers = hdrs\<rparr>))))))))"

text \<open>
  What one call of \<open>datagram_received\<close> does: it returns without a call, it calls
  \<open>on_call\<close> once, it logs an exception caught by \<open>except Exception\<close>, or an exception
  leaves the method.
\<close>

datatype outcome =
    Returned
  | OnCall CallInfo
  | Logged py_error
  | Raised py_error

definition datagram_received :: "bytes \<Rightarrow> ustr \<times> int \<Rightarrow> outcome" where
  "datagram_received data addr =
     (case datagram_received_try data addr of
        Inl e \<Rightarrow> if is_Exception e then Logged e else Raised e
      | Inr None \<Rightarrow> Returned
      | Inr (Some call_info) \<Rightarrow> OnCall call_info)"

section \<open>Notions of the specification\<close>

text \<open>
  An invitation: the method is absent or equals \<open>invite\<close> up to case.
\<close>

definition is_invitation :: "ustr option \<Rightarrow> bool" where
  "is_invitation method = (case method of None \<Rightarrow> True | Some m \<Rightarrow> lower m = ascii ''invite'')"

text \<open>
  An audio media line: after stripping, the key before the first \<open>=\<close> is \<open>m\<close> and the
  first token of the value is \<open>audio\<close>.
\<close>

definition is_audio_line :: "ustr \<Rightarrow> bool" where
  "is_audio_line l =
     (case split_max1 61 (strip l) of
        [key, val] \<Rightarrow> key = ascii ''m'' \<and> take 1 (split_ws val) = [ascii ''audio'']
      | _ \<Rightarrow> False)"

text \<open>
  A header line read as the specification reads it: the name is the text before the
  first colon, folded to lower case, and the value is the text after it, trimmed. The
  header lines of a message are the lines after the first, up to the first empty line.
\<close>

definition header_entry :: "ustr \<Rightarrow> ustr \<times> ustr" where
  "header_entry l =
     (lower (takeWhile (\<lambda>c. c \<noteq> 58) l), strip (tl (dropWhile (\<lambda>c. c \<noteq> 58) l)))"

definition header_lines :: "ustr \<Rightarrow> ustr list" where
  "header_lines message = takeWhile (\<lambda>l. l \<noteq> []) (tl (splitlines message))"

text \<open>A line of text that a line terminator can end: it holds no line boundary.\<close>

definition is_line :: "ustr \<Rightarrow> bool" where
  "is_line l = list_all (\<lambda>c. \<not> is_linebreak c) l"

text \<open>Lines, each followed by CR LF.\<close>

definition crlf_lines :: "ustr list \<Rightarrow> ustr" where
  "crlf_lines ls = concat (map (\<lambda>l. l @ CRLF) ls)"



section \<open>Example values\<close>

text \<open>The bytes of a line terminator, and the header mapping of an inbound INVITE.\<close>

definition crlf :: bytes where
  "crlf = [CHR 0x0D, CHR 0x0A]"

definition example_headers :: "ustr \<rightharpoonup> ustr" where
  "example_headers =
     [ascii ''via'' \<mapsto> ascii ''SIP/2.0/UDP 10.0.0.1:5060'',
      ascii ''from'' \<mapsto> ascii ''<sip:alice@10.0.0.1>;tag=1'',
      ascii ''to'' \<mapsto> ascii ''<sip:192.0.2.10:5060>;tag=abc'',
      ascii ''call-id'' \<mapsto> ascii ''42@10.0.0.1'',
      ascii ''cseq'' \<mapsto> ascii ''1 INVITE'',
      ascii ''contact'' \<mapsto> ascii ''<sip:alice@10.0.0.1:5060>'']"

text \<open>
  An INVITE from \<open>10.0.0.1:5060\<close> with the \<open>To\<close> header \<open><sip:192.0.2.10:5060>;tag=abc\<close>
  and a given body, as bytes and as the decoded text, and the header mapping parsed
  from it.
\<close>

definition invite_bytes :: "bytes \<Rightarrow> bytes" where
  "invite_bytes body =
     ''INVITE sip:ha@192.0.2.10 SIP/2.0'' @ crlf @
     ''To: <sip:192.0.2.10:5060>;tag=abc'' @ crlf @
     crlf @ body"

definition invite_text :: "ustr \<Rightarrow> ustr" where
  "invite_text body =
     ascii ''INVITE sip:ha@192.0.2.10 SIP/2.0'' @ CRLF @
     ascii ''To: <sip:192.0.2.10:5060>;tag=abc'' @ CRLF @
     CRLF @ body"

definition invite_headers :: "ustr \<rightharpoonup> ustr" where
  "invite_headers = [ascii ''to'' \<mapsto> ascii ''<sip:192.0.2.10:5060>;tag=abc'']"

definition caller :: "ustr \<times> int" where
  "caller = (ascii ''10.0.0.1'', 5060)"

text \<open>Session descriptions used as bodies of the example invitation.\<close>

definition sdp_offer :: bytes where
  "sdp_offer = ''v=0'' @ crlf @ ''m=audio 49170 RTP/AVP 0'' @ crlf @ ''a=sendrecv'' @ crlf"

definition sdp_two_audio :: bytes where
  "sdp_two_audio = ''m=audio 49170 RTP/AVP 0'' @ crlf @ ''m=audio 5004 RTP/AVP 0'' @ crlf"

definition sdp_garbage :: bytes where
  "sdp_garbage =
     ''m=audio 49170 RTP/AVP 0'' @ crlf @ ''garbage'' @ crlf @ ''m=audio 5004 RTP/AVP 0'' @ crlf"

definition sdp_first_second :: bytes where
  "sdp_first_second = ''m=audio 1000 RTP/AVP 0'' @ crlf @ ''m=audio 2000 RTP/AVP 0'' @ crlf"

section \<open>Evaluation\<close>

text \<open>The definitions that the simplifier unfolds to run the model on a concrete input.\<close>

lemmas eval_defs = ascii_def decode_def is_cont_def is_surrogate_def cons_opt_def splitlines_def
  is_linebreak_def is_space_def strip_def split_ws_def split_max1_def lower_cp_def lower_def
  is_digit_def is_int_space_def decimal_value_def is_decimal_def to_ascii_def
  int_max_str_digits_def py_int_def CRLF_def strip_prefix_def take_digits_def params_ok_def
  SIP_IP_match_def parse_sip_def bind_err_def unpack2_def index_def getitem_def assert_def
  scan_line_def datagram_received_try_def datagram_received_def crlf_def


lemmas case_defs = final_sigma_def is_cased_def is_case_ignorable_def in_ranges_def
  lower_ranges_def cased_ranges_def case_ignorable_ranges_def

text \<open>
  \<open>lower\<close> outside Basic Latin: U+00C9 maps to U+00E9, the Kelvin sign U+212A to \<open>k\<close>,
  U+0130 to two code points, and the capital sigma to the final sigma at the end of a
  word only.
\<close>

lemma lower_examples:
  "lower [201] = [233]"
  "lower [8490] = ascii ''k''"
  "lower [304] = [105, 775]"
  "lower [927, 916, 927, 931] = [959, 948, 959, 962]"
  "lower [931, 927, 931] = [963, 959, 962]"
  "lower (ascii ''Call-ID'') = ascii ''call-id''"
  by (simp_all add: lower_def lower_cp_def case_defs ascii_def)

text \<open>
  \<open>int\<close> and \<open>\d\<close> outside Basic Latin: the Arabic-Indic digits U+0661 and U+0662 are
  decimal digits, the separator \<open>0x1C\<close> is white space for \<open>strip\<close> but not for \<open>int\<close>.
\<close>

lemma py_int_examples:
  "py_int (ascii '' +1_000 '') = Inr 1000"
  "py_int (ascii ''-5'') = Inr (- 5)"
  "py_int (ascii ''1__0'') = Inl ValueError"
  "py_int [1633, 1634] = Inr 12"
  "py_int [160, 1633, 12288] = Inr 1"
  "py_int (28 # ascii ''5'') = Inl ValueError"
  "py_int (ascii ''5'' @ [233]) = Inl ValueError"
  by (simp_all add: py_int_def to_ascii_def is_int_space_def is_space_def int_max_str_digits_def
        is_digit_def decimal_value_def decimal_blocks_def ascii_def)

lemma py_int_limit:
  assumes "list_all is_digit ds" and "int_max_str_digits < length ds"
  shows "py_int ds = Inl ValueError"
proof -
  from assms(1) have a: "list_all (\<lambda>c. c < 128) ds" and f: "filter is_digit ds = ds"
    by (auto simp: list_all_iff is_digit_def)
  from assms(2) obtain c cs where ds: "ds = c # cs" by (cases ds) auto
  with assms(1) have c: "is_digit c" by simp
  then have h: "\<not> is_int_space c" "c \<noteq> 45" "c \<noteq> 43"
    by (auto simp: is_digit_def is_int_space_def)
  from assms(2) have "rev ds \<noteq> []" by auto
  then obtain d ds' where r: "rev ds = d # ds'" by (cases "rev ds") auto
  then have "d \<in> set ds" by (metis list.set_intros(1) set_rev)
  with assms(1) have "\<not> is_int_space d"
    by (auto simp: list_all_iff is_digit_def is_int_space_def)
  with r have bk: "dropWhile is_int_space (rev ds) = rev ds" by simp
  from h(1) ds have front: "dropWhile is_int_space ds = ds" by simp
  have t: "rev (dropWhile is_int_space (rev (dropWhile is_int_space (to_ascii ds)))) = ds"
    by (simp add: to_ascii_def a front bk)
  have ds': "(if ds \<noteq> [] \<and> (hd ds = 45 \<or> hd ds = 43) then tl ds else ds) = ds"
    using ds h(2,3) by simp
  have lim: "int_max_str_digits < length (filter is_digit ds)"
    using f assms(2) by simp
  show ?thesis
    unfolding py_int_def t Let_def ds' using lim
    by (cases "digits_value 0 False ds") simp_all
qed

lemma SIP_IP_match_examples:
  "SIP_IP_match (ascii ''<sip:192.0.2.10:5060>'') = Some (ascii ''192.0.2.10'')"
  "SIP_IP_match (ascii ''<sip:1924.0.2.10:5060>'') = None"
  "SIP_IP_match (ascii ''<sip:192.0.2.10:5060>;'') = None"
  "SIP_IP_match (ascii ''<sip:192.0.2.10:5060>;x'' @ [10]) = Some (ascii ''192.0.2.10'')"
  "SIP_IP_match (ascii ''<sip:'' @ [1633] @ ascii ''.0.2.10:5060>'')
     = Some ([1633] @ ascii ''.0.2.10'')"
  by (simp_all add: SIP_IP_match_def strip_prefix_def take_digits_def is_decimal_def
        decimal_value_def decimal_blocks_def params_ok_def ascii_def)


lemma is_Exception_all: "is_Exception e"
  by (cases e) simp_all

section \<open>The scan of the body\<close>

lemma bind_err_Inl [simp]: "bind_err (Inl e) f = Inl e"
  by (simp add: bind_err_def)

lemma bind_err_Inr [simp]: "bind_err (Inr x) f = f x"
  by (simp add: bind_err_def)

lemma bind_err_eq_Inr:
  "bind_err m f = Inr y \<longleftrightarrow> (\<exists>x. m = Inr x \<and> f x = Inr y)"
  by (cases m) simp_all

lemma scan_body_append:
  "scan_body (xs @ ys) p = bind_err (scan_body xs p) (scan_body ys)"
proof (induction xs arbitrary: p)
  case Nil
  show ?case by simp
next
  case (Cons x xs)
  show ?case
    by (cases "scan_line p x") (simp_all add: Cons.IH)
qed

lemma scan_line_no_equals:
  assumes "strip l \<noteq> []" and "61 \<notin> set (strip l)"
  shows "scan_line p l = Inl ValueError"
  using assms by (simp add: scan_line_def split_max1_def unpack2_def)

lemma scan_body_no_equals:
  assumes "l \<in> set ls" and "strip l \<noteq> []" and "61 \<notin> set (strip l)"
  shows "\<exists>e. scan_body ls p = Inl e"
  using assms(1)
proof (induction ls arbitrary: p)
  case Nil
  then show ?case by simp
next
  case (Cons x xs)
  show ?case
  proof (cases "scan_line p x")
    case (Inl e)
    then show ?thesis by simp
  next
    case (Inr q)
    with assms(2,3) have "x \<noteq> l" by (auto simp: scan_line_no_equals)
    with Cons.prems have "l \<in> set xs" by simp
    from Cons.IH [OF this] Inr show ?thesis by simp
  qed
qed

lemma scan_line_not_audio:
  assumes "\<not> is_audio_line l" and "scan_line p l = Inr q"
  shows "q = p"
proof (cases "strip l = []")
  case True
  with assms(2) show ?thesis by (simp add: scan_line_def)
next
  case False
  show ?thesis
  proof (cases "61 \<in> set (strip l)")
    case no: False
    with False assms(2) show ?thesis by (simp add: scan_line_no_equals)
  next
    case True
    define key where "key = takeWhile (\<lambda>c. c \<noteq> 61) (strip l)"
    define val where "val = tl (dropWhile (\<lambda>c. c \<noteq> 61) (strip l))"
    have sp: "split_max1 61 (strip l) = [key, val]"
      using True by (simp add: split_max1_def key_def val_def)
    show ?thesis
    proof (cases "key = ascii ''m''")
      case k: False
      with assms(2) False sp show ?thesis
        by (simp add: scan_line_def unpack2_def)
    next
      case k: True
      with assms(1) sp have na: "take 1 (split_ws val) \<noteq> [ascii ''audio'']"
        by (simp add: is_audio_line_def)
      show ?thesis
      proof (cases "split_ws val")
        case Nil
        with assms(2) False sp k show ?thesis
          by (simp add: scan_line_def unpack2_def index_def)
      next
        case (Cons t ts)
        with na have "t \<noteq> ascii ''audio''" by simp
        with assms(2) False sp k Cons show ?thesis
          by (simp add: scan_line_def unpack2_def index_def)
      qed
    qed
  qed
qed

lemma scan_body_not_audio:
  assumes "\<forall>l \<in> set ls. \<not> is_audio_line l" and "scan_body ls p = Inr q"
  shows "q = p"
  using assms
proof (induction ls arbitrary: p)
  case Nil
  then show ?case by simp
next
  case (Cons x xs)
  from Cons.prems(2) obtain r where r: "scan_line p x = Inr r" "scan_body xs r = Inr q"
    by (auto simp: bind_err_eq_Inr)
  from Cons.prems(1) r(1) have "r = p" by (auto dest: scan_line_not_audio)
  with Cons.IH [of p] Cons.prems(1) r(2) show ?case by simp
qed

lemma scan_line_audio:
  assumes "split_max1 61 (strip l) = [ascii ''m'', val]"
    and "split_ws val = ascii ''audio'' # tok # toks"
  shows "scan_line p l = bind_err (py_int tok) (\<lambda>n. Inr (Some n))"
proof -
  have "strip l \<noteq> []"
    using assms(1) by (auto simp: split_max1_def split: if_splits)
  with assms show ?thesis
    by (simp add: scan_line_def unpack2_def index_def)
qed

lemma scan_body_last_audio:
  assumes "split_max1 61 (strip l) = [ascii ''m'', val]"
    and "split_ws val = ascii ''audio'' # tok # toks"
    and "\<forall>l' \<in> set post. \<not> is_audio_line l'"
    and "scan_body (pre @ [l] @ post) p = Inr q"
  shows "\<exists>n. py_int tok = Inr n \<and> q = Some n"
proof -
  from assms(4) obtain p0 where "scan_body pre p = Inr p0" "scan_body ([l] @ post) p0 = Inr q"
    by (auto simp: scan_body_append bind_err_eq_Inr)
  then obtain r where r: "scan_line p0 l = Inr r" "scan_body post r = Inr q"
    by (auto simp: bind_err_eq_Inr)
  from r(1) obtain n where n: "py_int tok = Inr n" "r = Some n"
    by (auto simp: scan_line_audio [OF assms(1,2)] bind_err_eq_Inr)
  from scan_body_not_audio [OF assms(3) r(2)] n show ?thesis by simp
qed

section \<open>What \<open>datagram_received\<close> does with an invitation\<close>

lemma datagram_received_invitation:
  assumes "decode data = Inr message"
    and "parse_sip message = Inr (method, h, body)"
    and "is_invitation method"
  shows "datagram_received data (ip, port) =
     (case scan_body (splitlines body) None of
        Inl e \<Rightarrow> Logged e
      | Inr None \<Rightarrow> Logged AssertionError
      | Inr (Some p) \<Rightarrow>
          (case h (ascii ''to'') of
             None \<Rightarrow> Logged KeyError
           | Some to \<Rightarrow>
               (case SIP_IP_match to of
                  None \<Rightarrow> Logged AssertionError
                | Some ip' \<Rightarrow>
                    OnCall \<lparr>caller_ip = ip, caller_sip_port = port, caller_rtp_port = p,
                            server_ip = ip', headers = h\<rparr>)))"
proof -
  from assms(3) have "\<not> (case method of None \<Rightarrow> False | Some m \<Rightarrow> m \<noteq> [] \<and> lower m \<noteq> ascii ''invite'')"
    by (simp add: is_invitation_def split: option.splits)
  with assms(1,2) show ?thesis
    by (simp add: datagram_received_def datagram_received_try_def getitem_def assert_def
          is_Exception_all split: sum.splits option.splits)
qed

section \<open>Example invitations\<close>

lemma decode_ascii:
  "\<forall>c \<in> set s. of_char c < (128::nat) \<Longrightarrow> decode s = Inr (ascii s)"
proof -
  have "\<forall>c \<in> set s. of_char c < (128::nat) \<Longrightarrow> utf8_decode (map of_char s) = Some (map of_char s)"
    by (induction s) (simp_all add: cons_opt_def)
  then show "\<forall>c \<in> set s. of_char c < (128::nat) \<Longrightarrow> decode s = Inr (ascii s)"
    by (simp add: decode_def ascii_def)
qed

lemma ascii_append: "ascii (s @ t) = ascii s @ ascii t"
  by (simp add: ascii_def)

lemma ascii_crlf: "ascii crlf = CRLF"
  by (simp add: ascii_def crlf_def CRLF_def)

lemma decode_invite:
  assumes "\<forall>c \<in> set body. of_char c < (128::nat)"
  shows "decode (invite_bytes body) = Inr (invite_text (ascii body))"
proof -
  have "\<forall>c \<in> set (invite_bytes body). of_char c < (128::nat)"
    using assms by (simp add: invite_bytes_def crlf_def ball_Un)
  then have "decode (invite_bytes body) = Inr (ascii (invite_bytes body))"
    by (rule decode_ascii)
  also have "ascii (invite_bytes body) = invite_text (ascii body)"
    by (simp add: invite_bytes_def invite_text_def ascii_def crlf_def CRLF_def)
  finally show ?thesis .
qed

section \<open>\<open>_parse_sip\<close> on a message with CR LF line ends\<close>

lemma splitlines_from_line:
  assumes "is_line l"
  shows "splitlines_from cur (l @ CRLF @ rest) = (cur @ l) # splitlines_from [] rest"
  using assms
proof (induction l arbitrary: cur)
  case Nil
  show ?case by (simp add: CRLF_def)
next
  case (Cons c l)
  then have c: "\<not> is_linebreak c" and l: "is_line l"
    by (simp_all add: is_line_def)
  obtain d ds where d: "l @ CRLF @ rest = d # ds"
    by (cases "l @ CRLF @ rest") (simp_all add: CRLF_def)
  from c have "c \<noteq> 13" by (auto simp: is_linebreak_def)
  with c d have "splitlines_from cur ((c # l) @ CRLF @ rest)
      = splitlines_from (cur @ [c]) (l @ CRLF @ rest)"
    by simp
  with Cons.IH [OF l, of "cur @ [c]"] show ?case by simp
qed

lemma splitlines_line:
  "is_line l \<Longrightarrow> splitlines (l @ CRLF @ rest) = l # splitlines rest"
  using splitlines_from_line [of l "[]" rest] by (simp add: splitlines_def)

lemma splitlines_crlf_lines:
  assumes "list_all is_line ls"
  shows "splitlines (crlf_lines ls @ rest) = ls @ splitlines rest"
  using assms
proof (induction ls)
  case Nil
  show ?case by (simp add: crlf_lines_def)
next
  case (Cons l ls)
  then have "splitlines (l @ CRLF @ (crlf_lines ls @ rest)) = l # ls @ splitlines rest"
    by (simp add: splitlines_line)
  then show ?case by (simp add: crlf_lines_def)
qed

lemma length_crlf_lines:
  "length (crlf_lines ls) = sum_list (map (\<lambda>l. length l + 2) ls)"
  by (induction ls) (simp_all add: crlf_lines_def CRLF_def)

text \<open>The header loop: the rounds after the first, up to the \<open>break\<close> at an empty line.\<close>

lemma parse_loop_headers:
  assumes "\<forall>l \<in> set hs. l \<noteq> [] \<and> 58 \<in> set l"
  shows "parse_loop (Suc i) (hs @ [] # tail) (m, h, off) =
           Inr (m, h ++ map_of (rev (map header_entry hs)),
                off + sum_list (map (\<lambda>l. length l + 2) hs))"
  using assms
proof (induction hs arbitrary: i h off)
  case Nil
  show ?case by simp
next
  case (Cons l hs)
  then have l: "l \<noteq> []" "58 \<in> set l" and hs: "\<forall>l \<in> set hs. l \<noteq> [] \<and> 58 \<in> set l"
    by simp_all
  have upd: "h(fst (header_entry l) \<mapsto> snd (header_entry l)) ++ map_of (rev (map header_entry hs))
      = h ++ map_of (rev (map header_entry (l # hs)))"
  proof (cases "header_entry l")
    case (Pair k v)
    let ?M = "map_of (rev (map header_entry hs))"
    have "map_of (rev (map header_entry (l # hs))) = [k \<mapsto> v] ++ ?M"
      by (simp add: Pair)
    then have "h ++ map_of (rev (map header_entry (l # hs))) = (h ++ [k \<mapsto> v]) ++ ?M"
      by (simp only: map_add_assoc)
    also have "h ++ [k \<mapsto> v] = h(k \<mapsto> v)"
      by simp
    finally show ?thesis
      by (simp only: Pair fst_conv snd_conv)
  qed
  from l have "parse_loop (Suc i) ((l # hs) @ [] # tail) (m, h, off)
      = parse_loop (Suc (Suc i)) (hs @ [] # tail)
          (m, h(fst (header_entry l) \<mapsto> snd (header_entry l)), off + (length l + 2))"
    by (simp add: split_max1_def header_entry_def CRLF_def)
  also have "\<dots> = Inr (m, h(fst (header_entry l) \<mapsto> snd (header_entry l))
                            ++ map_of (rev (map header_entry hs)),
                     off + (length l + 2) + sum_list (map (\<lambda>l. length l + 2) hs))"
    by (rule Cons.IH [OF hs])
  finally show ?case unfolding upd by (simp add: add.assoc)
qed

lemma parse_sip_crlf:
  assumes l0: "is_line l0" "split_ws l0 = tok # toks"
    and hs: "list_all is_line hs" "\<forall>l \<in> set hs. l \<noteq> [] \<and> 58 \<in> set l"
  shows "parse_sip (crlf_lines (l0 # hs) @ CRLF @ rest) =
           Inr (Some tok, map_of (rev (map header_entry hs)), CRLF @ rest)"
proof -
  let ?message = "crlf_lines (l0 # hs) @ CRLF @ rest"
  have ne: "l0 \<noteq> []"
    using l0(2) by (auto simp: split_ws_def)
  have "is_line []" by (simp add: is_line_def)
  then have "splitlines (CRLF @ rest) = [] # splitlines rest"
    using splitlines_line [of "[]" rest] by simp
  with l0(1) hs(1) have lines: "splitlines ?message = l0 # hs @ [] # splitlines rest"
    using splitlines_crlf_lines [of "l0 # hs" "CRLF @ rest"] by simp
  from ne l0(2) have "parse_loop 0 (l0 # hs @ [] # splitlines rest) (None, Map.empty, 0)
      = parse_loop (Suc 0) (hs @ [] # splitlines rest) (Some tok, Map.empty, length l0 + 2)"
    by (simp add: CRLF_def)
  also have "\<dots> = Inr (Some tok, Map.empty ++ map_of (rev (map header_entry hs)),
                     length l0 + 2 + sum_list (map (\<lambda>l. length l + 2) hs))"
    by (rule parse_loop_headers [OF hs(2)])
  finally have loop: "parse_loop 0 (splitlines ?message) (None, Map.empty, 0)
      = Inr (Some tok, map_of (rev (map header_entry hs)), length (crlf_lines (l0 # hs)))"
    by (simp add: lines length_crlf_lines)
  show ?thesis
    by (simp add: parse_sip_def loop)
qed

lemma parse_invite:
  "parse_sip (invite_text body) = Inr (Some (ascii ''INVITE''), invite_headers, CRLF @ body)"
proof -
  let ?l0 = "ascii ''INVITE sip:ha@192.0.2.10 SIP/2.0''"
  let ?to = "ascii ''To: <sip:192.0.2.10:5060>;tag=abc''"
  have l0: "is_line ?l0"
    "split_ws ?l0 = ascii ''INVITE'' # [ascii ''sip:ha@192.0.2.10'', ascii ''SIP/2.0'']"
    by (simp_all add: is_line_def is_linebreak_def split_ws_def is_space_def ascii_def)
  have hs: "list_all is_line [?to]" "\<forall>l \<in> set [?to]. l \<noteq> [] \<and> 58 \<in> set l"
    by (simp_all add: is_line_def is_linebreak_def ascii_def)
  have h: "map_of (rev (map header_entry [?to])) = invite_headers"
    by (simp add: header_entry_def invite_headers_def ascii_def lower_def lower_cp_def strip_def
          is_space_def)
  have "invite_text body = crlf_lines [?l0, ?to] @ CRLF @ body"
    by (simp add: invite_text_def crlf_lines_def)
  with parse_sip_crlf [OF l0 hs, of body] h show ?thesis by simp
qed

lemma invitation_INVITE: "is_invitation (Some (ascii ''INVITE''))"
  by (simp add: is_invitation_def lower_def lower_cp_def ascii_def)

section \<open>A malformed body line\<close>

text \<open>
  C10: when the body of an invitation holds a line that is not empty after stripping
  and has no \<open>=\<close>, \<open>datagram_received\<close> logs an exception and does not call \<open>on_call\<close>,
  whatever the other body lines are.
\<close>

theorem malformed_body_line_drops:
  assumes "decode data = Inr message"
    and "parse_sip message = Inr (method, h, body)"
    and "is_invitation method"
    and "l \<in> set (splitlines body)"
    and "strip l \<noteq> []"
    and "61 \<notin> set (strip l)"
  shows "\<exists>e. datagram_received data addr = Logged e"
proof -
  obtain ip port where addr: "addr = (ip, port)" by (cases addr)
  from scan_body_no_equals [OF assms(4,5,6)] obtain e
    where "scan_body (splitlines body) None = Inl e" by blast
  with datagram_received_invitation [OF assms(1,2,3), of ip port] addr
  show ?thesis by simp
qed

theorem malformed_body_line_drops_witness:
  "decode (invite_bytes sdp_garbage) = Inr (invite_text (ascii sdp_garbage))
   \<and> parse_sip (invite_text (ascii sdp_garbage))
       = Inr (Some (ascii ''INVITE''), invite_headers, CRLF @ ascii sdp_garbage)
   \<and> is_invitation (Some (ascii ''INVITE''))
   \<and> ascii ''garbage'' \<in> set (splitlines (CRLF @ ascii sdp_garbage))
   \<and> ascii ''m=audio 5004 RTP/AVP 0'' \<in> set (splitlines (CRLF @ ascii sdp_garbage))
   \<and> strip (ascii ''garbage'') \<noteq> []
   \<and> 61 \<notin> set (strip (ascii ''garbage''))
   \<and> (\<exists>e. datagram_received (invite_bytes sdp_garbage) caller = Logged e)"
proof -
  have d: "decode (invite_bytes sdp_garbage) = Inr (invite_text (ascii sdp_garbage))"
    by (rule decode_invite) (simp add: sdp_garbage_def crlf_def)
  have p: "parse_sip (invite_text (ascii sdp_garbage))
       = Inr (Some (ascii ''INVITE''), invite_headers, CRLF @ ascii sdp_garbage)"
    by (rule parse_invite)
  have l: "ascii ''garbage'' \<in> set (splitlines (CRLF @ ascii sdp_garbage))"
    "ascii ''m=audio 5004 RTP/AVP 0'' \<in> set (splitlines (CRLF @ ascii sdp_garbage))"
    by (simp_all add: sdp_garbage_def crlf_def CRLF_def ascii_def splitlines_def is_linebreak_def)
  have s: "strip (ascii ''garbage'') \<noteq> []" "61 \<notin> set (strip (ascii ''garbage''))"
    by (simp_all add: strip_def is_space_def ascii_def)
  from malformed_body_line_drops [OF d p invitation_INVITE l(1) s, of caller] d p l s
  show ?thesis by (simp add: invitation_INVITE)
qed

section \<open>Which media line gives the port\<close>

lemma datagram_received_example:
  "datagram_received (invite_bytes sdp_offer) caller =
     OnCall \<lparr>caller_ip = ascii ''10.0.0.1'', caller_sip_port = 5060, caller_rtp_port = 49170,
             server_ip = ascii ''192.0.2.10'', headers = invite_headers\<rparr>"
  "datagram_received (invite_bytes sdp_two_audio) caller =
     OnCall \<lparr>caller_ip = ascii ''10.0.0.1'', caller_sip_port = 5060, caller_rtp_port = 5004,
             server_ip = ascii ''192.0.2.10'', headers = invite_headers\<rparr>"
  by (simp_all add: eval_defs invite_bytes_def invite_headers_def caller_def sdp_offer_def
        sdp_two_audio_def)

text \<open>
  C4, as the code has it: the loop over the body lines has no \<open>break\<close>, and every
  \<open>m=audio\<close> line assigns the port. When \<open>datagram_received\<close> calls \<open>on_call\<close> for an
  invitation, \<open>caller_rtp_port\<close> is the integer second token of the last \<open>m=audio\<close> line
  of the body.
\<close>

theorem last_audio_line_wins:
  assumes "decode data = Inr message"
    and "parse_sip message = Inr (method, h, body)"
    and "is_invitation method"
    and "splitlines body = pre @ [l] @ post"
    and "split_max1 61 (strip l) = [ascii ''m'', val]"
    and "split_ws val = ascii ''audio'' # tok # toks"
    and "\<forall>l' \<in> set post. \<not> is_audio_line l'"
    and "datagram_received data addr = OnCall c"
  shows "py_int tok = Inr (caller_rtp_port c)"
proof -
  obtain ip port where addr: "addr = (ip, port)" by (cases addr)
  from datagram_received_invitation [OF assms(1,2,3), of ip port] assms(8) addr
  have "scan_body (splitlines body) None = Inr (Some (caller_rtp_port c))"
    by (auto split: sum.splits option.splits)
  then have "scan_body (pre @ [l] @ post) None = Inr (Some (caller_rtp_port c))"
    by (simp only: assms(4))
  from scan_body_last_audio [OF assms(5,6,7) this] show ?thesis by simp
qed

theorem last_audio_line_wins_witness:
  "decode (invite_bytes sdp_two_audio) = Inr (invite_text (ascii sdp_two_audio))
   \<and> parse_sip (invite_text (ascii sdp_two_audio))
       = Inr (Some (ascii ''INVITE''), invite_headers, CRLF @ ascii sdp_two_audio)
   \<and> is_invitation (Some (ascii ''INVITE''))
   \<and> splitlines (CRLF @ ascii sdp_two_audio)
       = [[], ascii ''m=audio 49170 RTP/AVP 0''] @ [ascii ''m=audio 5004 RTP/AVP 0''] @ []
   \<and> split_max1 61 (strip (ascii ''m=audio 5004 RTP/AVP 0''))
       = [ascii ''m'', ascii ''audio 5004 RTP/AVP 0'']
   \<and> split_ws (ascii ''audio 5004 RTP/AVP 0'')
       = ascii ''audio'' # ascii ''5004'' # [ascii ''RTP/AVP'', ascii ''0'']
   \<and> is_audio_line (ascii ''m=audio 49170 RTP/AVP 0'')
   \<and> datagram_received (invite_bytes sdp_two_audio) caller =
       OnCall \<lparr>caller_ip = ascii ''10.0.0.1'', caller_sip_port = 5060, caller_rtp_port = 5004,
               server_ip = ascii ''192.0.2.10'', headers = invite_headers\<rparr>
   \<and> py_int (ascii ''5004'') = Inr 5004"
proof -
  let ?c = "\<lparr>caller_ip = ascii ''10.0.0.1'', caller_sip_port = 5060, caller_rtp_port = 5004,
             server_ip = ascii ''192.0.2.10'', headers = invite_headers\<rparr>"
  have d: "decode (invite_bytes sdp_two_audio) = Inr (invite_text (ascii sdp_two_audio))"
    by (rule decode_invite) (simp add: sdp_two_audio_def crlf_def)
  have p: "parse_sip (invite_text (ascii sdp_two_audio))
       = Inr (Some (ascii ''INVITE''), invite_headers, CRLF @ ascii sdp_two_audio)"
    by (rule parse_invite)
  have ls: "splitlines (CRLF @ ascii sdp_two_audio)
       = [[], ascii ''m=audio 49170 RTP/AVP 0''] @ [ascii ''m=audio 5004 RTP/AVP 0''] @ []"
    by (simp add: sdp_two_audio_def crlf_def CRLF_def ascii_def splitlines_def is_linebreak_def)
  have l: "split_max1 61 (strip (ascii ''m=audio 5004 RTP/AVP 0''))
       = [ascii ''m'', ascii ''audio 5004 RTP/AVP 0'']"
    "split_ws (ascii ''audio 5004 RTP/AVP 0'')
       = ascii ''audio'' # ascii ''5004'' # [ascii ''RTP/AVP'', ascii ''0'']"
    "is_audio_line (ascii ''m=audio 49170 RTP/AVP 0'')"
    by (simp_all add: is_audio_line_def split_max1_def strip_def split_ws_def is_space_def
          ascii_def)
  have post: "\<forall>l' \<in> set []. \<not> is_audio_line l'" by simp
  from last_audio_line_wins [OF d p invitation_INVITE ls l(1,2) post datagram_received_example(2)]
  have "py_int (ascii ''5004'') = Inr 5004" by simp
  with d p ls l show ?thesis
    by (simp add: invitation_INVITE datagram_received_example(2))
qed

text \<open>
  C4 as claimed fails: with the \<open>m=audio\<close> lines for the ports 1000 and 2000, in this
  order, \<open>caller_rtp_port\<close> is 2000, the port of the second line.
\<close>

theorem first_audio_line_counterexample:
  "datagram_received (invite_bytes sdp_first_second) caller =
     OnCall \<lparr>caller_ip = ascii ''10.0.0.1'', caller_sip_port = 5060, caller_rtp_port = 2000,
             server_ip = ascii ''192.0.2.10'', headers = invite_headers\<rparr>"
  by (simp add: eval_defs invite_bytes_def invite_headers_def caller_def sdp_first_second_def)

section \<open>The invitation of the specification\<close>

text \<open>
  C1, as the code has it: for a datagram whose parsed message is an invitation with the
  \<open>to\<close> header \<open><sip:192.0.2.10:5060>;tag=abc\<close> and a body with the line
  \<open>m=audio 49170 RTP/AVP 0\<close>, \<open>datagram_received\<close> calls \<open>on_call\<close> once, with
  \<open>caller_rtp_port = 49170\<close> and \<open>server_ip = 192.0.2.10\<close>, provided that no \<open>m=audio\<close>
  line follows that line and that no body line makes the scan raise.
\<close>

theorem invitation_emits_call:
  assumes "decode data = Inr message"
    and "parse_sip message = Inr (method, h, body)"
    and "is_invitation method"
    and "h (ascii ''to'') = Some (ascii ''<sip:192.0.2.10:5060>;tag=abc'')"
    and "splitlines body = pre @ [l] @ post"
    and "strip l = ascii ''m=audio 49170 RTP/AVP 0''"
    and "\<forall>l' \<in> set post. \<not> is_audio_line l'"
    and "scan_body (splitlines body) None = Inr r"
  shows "datagram_received data (ip, port) =
           OnCall \<lparr>caller_ip = ip, caller_sip_port = port, caller_rtp_port = 49170,
                   server_ip = ascii ''192.0.2.10'', headers = h\<rparr>"
proof -
  have l: "split_max1 61 (strip l) = [ascii ''m'', ascii ''audio 49170 RTP/AVP 0'']"
    "split_ws (ascii ''audio 49170 RTP/AVP 0'')
       = ascii ''audio'' # ascii ''49170'' # [ascii ''RTP/AVP'', ascii ''0'']"
    by (simp_all add: assms(6) split_max1_def split_ws_def is_space_def ascii_def)
  have n: "py_int (ascii ''49170'') = Inr 49170"
    by (simp add: py_int_def to_ascii_def is_int_space_def int_max_str_digits_def is_digit_def
          ascii_def)
  have "scan_body (pre @ [l] @ post) None = Inr r"
    using assms(8) by (simp only: assms(5))
  from scan_body_last_audio [OF l assms(7) this] n have "r = Some 49170" by simp
  with assms(8) have scan: "scan_body (splitlines body) None = Inr (Some 49170)" by simp
  have m: "SIP_IP_match (ascii ''<sip:192.0.2.10:5060>;tag=abc'') = Some (ascii ''192.0.2.10'')"
    by (simp add: SIP_IP_match_def strip_prefix_def take_digits_def is_decimal_def
          decimal_value_def params_ok_def
          ascii_def)
  from datagram_received_invitation [OF assms(1,2,3), of ip port] scan assms(4) m
  show ?thesis by simp
qed

theorem invitation_emits_call_witness:
  "decode (invite_bytes sdp_offer) = Inr (invite_text (ascii sdp_offer))
   \<and> parse_sip (invite_text (ascii sdp_offer))
       = Inr (Some (ascii ''INVITE''), invite_headers, CRLF @ ascii sdp_offer)
   \<and> is_invitation (Some (ascii ''INVITE''))
   \<and> invite_headers (ascii ''to'') = Some (ascii ''<sip:192.0.2.10:5060>;tag=abc'')
   \<and> splitlines (CRLF @ ascii sdp_offer)
       = [[], ascii ''v=0''] @ [ascii ''m=audio 49170 RTP/AVP 0''] @ [ascii ''a=sendrecv'']
   \<and> strip (ascii ''m=audio 49170 RTP/AVP 0'') = ascii ''m=audio 49170 RTP/AVP 0''
   \<and> \<not> is_audio_line (ascii ''a=sendrecv'')
   \<and> scan_body (splitlines (CRLF @ ascii sdp_offer)) None = Inr (Some 49170)
   \<and> datagram_received (invite_bytes sdp_offer) (ascii ''10.0.0.1'', 5060) =
       OnCall \<lparr>caller_ip = ascii ''10.0.0.1'', caller_sip_port = 5060, caller_rtp_port = 49170,
               server_ip = ascii ''192.0.2.10'', headers = invite_headers\<rparr>"
proof -
  have d: "decode (invite_bytes sdp_offer) = Inr (invite_text (ascii sdp_offer))"
    by (rule decode_invite) (simp add: sdp_offer_def crlf_def)
  have p: "parse_sip (invite_text (ascii sdp_offer))
       = Inr (Some (ascii ''INVITE''), invite_headers, CRLF @ ascii sdp_offer)"
    by (rule parse_invite)
  have t: "invite_headers (ascii ''to'') = Some (ascii ''<sip:192.0.2.10:5060>;tag=abc'')"
    by (simp add: invite_headers_def)
  have ls: "splitlines (CRLF @ ascii sdp_offer)
       = [[], ascii ''v=0''] @ [ascii ''m=audio 49170 RTP/AVP 0''] @ [ascii ''a=sendrecv'']"
    by (simp add: sdp_offer_def crlf_def CRLF_def ascii_def splitlines_def is_linebreak_def)
  have s: "strip (ascii ''m=audio 49170 RTP/AVP 0'') = ascii ''m=audio 49170 RTP/AVP 0''"
    by (simp add: strip_def is_space_def ascii_def)
  have na: "\<not> is_audio_line (ascii ''a=sendrecv'')"
    by (simp add: is_audio_line_def split_max1_def strip_def is_space_def ascii_def)
  then have post: "\<forall>l' \<in> set [ascii ''a=sendrecv'']. \<not> is_audio_line l'" by simp
  have sc: "scan_body (splitlines (CRLF @ ascii sdp_offer)) None = Inr (Some 49170)"
    unfolding ls by (simp add: eval_defs)
  from invitation_emits_call [OF d p invitation_INVITE t ls s post sc,
      of "ascii ''10.0.0.1''" 5060] d p t ls s na sc
  show ?thesis by (simp add: invitation_INVITE)
qed

text \<open>
  C1 as claimed fails on two invitations with the \<open>to\<close> header and the body line of the
  claim: with a body line \<open>garbage\<close> the datagram is dropped with a \<open>ValueError\<close>, and with
  a later line \<open>m=audio 5004 RTP/AVP 0\<close> the port handed to \<open>on_call\<close> is 5004.
\<close>

theorem invitation_emits_call_counterexample:
  "datagram_received (invite_bytes sdp_garbage) caller = Logged ValueError
   \<and> datagram_received (invite_bytes sdp_two_audio) caller =
       OnCall \<lparr>caller_ip = ascii ''10.0.0.1'', caller_sip_port = 5060, caller_rtp_port = 5004,
               server_ip = ascii ''192.0.2.10'', headers = invite_headers\<rparr>"
  by (simp add: eval_defs invite_bytes_def invite_headers_def caller_def sdp_garbage_def
        sdp_two_audio_def)

section \<open>The method returned by \<open>_parse_sip\<close>\<close>

lemma parse_loop_method:
  "parse_loop (Suc i) ls (m, h, off) = Inr (m', h', off') \<Longrightarrow> m' = m"
proof (induction ls arbitrary: i h off)
  case Nil
  then show ?case by simp
next
  case (Cons l ls)
  then show ?case
    by (auto simp: Let_def split: if_splits list.splits)
qed

lemma parse_loop_first:
  assumes "parse_loop 0 (l # ls) (None, Map.empty, 0) = Inr (method, h, off)"
  shows "\<exists>tok toks. split_ws l = tok # toks \<and> method = Some tok"
proof (cases "split_ws l")
  case Nil
  with assms show ?thesis by (simp add: Let_def)
next
  case (Cons tok toks)
  with assms obtain off0 where
    "parse_loop (Suc 0) ls (Some tok, Map.empty, off0) = Inr (method, h, off)"
    by (simp add: Let_def)
  then have "method = Some tok" by (rule parse_loop_method)
  with Cons show ?thesis by simp
qed

lemma splitlines_from_Nil_iff: "splitlines_from cur s = [] \<longleftrightarrow> cur = [] \<and> s = []"
  by (induction cur s rule: splitlines_from.induct) auto

lemma splitlines_Nil_iff: "splitlines s = [] \<longleftrightarrow> s = []"
  by (simp add: splitlines_def splitlines_from_Nil_iff)

text \<open>
  C6, as the code has it: \<open>_parse_sip\<close> does not tell requests from responses. For every
  message it accepts, the returned method is the first token of the first line, whether
  that line is a request line or a status line; the method is absent only for the empty
  message.
\<close>

theorem parse_sip_method:
  assumes "parse_sip message = Inr (method, h, body)"
  shows "if message = [] then method = None
         else \<exists>tok toks. split_ws (hd (splitlines message)) = tok # toks \<and> method = Some tok"
proof (cases "parse_loop 0 (splitlines message) (None, Map.empty, 0)")
  case (Inl e)
  with assms show ?thesis by (simp add: parse_sip_def)
next
  case (Inr st)
  obtain m' h' off where st: "st = (m', h', off)" by (cases st)
  with Inr assms have m: "m' = method" by (simp add: parse_sip_def)
  show ?thesis
  proof (cases "splitlines message")
    case Nil
    then have "message = []" by (simp only: splitlines_Nil_iff)
    with Inr st m show ?thesis by (simp add: splitlines_def)
  next
    case (Cons l ls)
    have ne: "message \<noteq> []"
    proof
      assume "message = []"
      with Cons show False by (simp add: splitlines_def)
    qed
    from Inr have "parse_loop 0 (l # ls) (None, Map.empty, 0) = Inr (method, h', off)"
      unfolding Cons st m .
    from parse_loop_first [OF this] obtain tok toks
      where "split_ws l = tok # toks" "method = Some tok" by blast
    with ne show ?thesis unfolding Cons by simp
  qed
qed

theorem parse_sip_method_witness:
  "parse_sip (ascii ''SIP/2.0 200 OK'' @ CRLF @ ascii ''Via: x'' @ CRLF @ CRLF)
     = Inr (Some (ascii ''SIP/2.0''), [ascii ''via'' \<mapsto> ascii ''x''], CRLF)
   \<and> (\<exists>tok toks. split_ws (hd (splitlines (ascii ''SIP/2.0 200 OK'' @ CRLF @ ascii ''Via: x'' @ CRLF @ CRLF))) = tok # toks
        \<and> Some (ascii ''SIP/2.0'') = Some tok)"
proof -
  have e: "parse_sip (ascii ''SIP/2.0 200 OK'' @ CRLF @ ascii ''Via: x'' @ CRLF @ CRLF)
     = Inr (Some (ascii ''SIP/2.0''), [ascii ''via'' \<mapsto> ascii ''x''], CRLF)"
    by (simp add: eval_defs)
  have ne: "ascii ''SIP/2.0 200 OK'' @ CRLF @ ascii ''Via: x'' @ CRLF @ CRLF \<noteq> []"
    by (simp add: ascii_def)
  from parse_sip_method [OF e] ne e show ?thesis by presburger
qed

text \<open>
  C6 as claimed fails: for a response whose first line is the status line
  \<open>SIP/2.0 200 OK\<close> the returned method is \<open>SIP/2.0\<close>, not \<open>None\<close>.
\<close>

theorem parse_sip_response_counterexample:
  "parse_sip (ascii ''SIP/2.0 200 OK'' @ CRLF @ ascii ''Via: x'' @ CRLF @ CRLF)
     = Inr (Some (ascii ''SIP/2.0''), [ascii ''via'' \<mapsto> ascii ''x''], CRLF)
   \<and> fst (projr (parse_sip (ascii ''SIP/2.0 200 OK'' @ CRLF @ ascii ''Via: x'' @ CRLF @ CRLF))) \<noteq> None"
  by (simp add: eval_defs)

section \<open>The receive path never raises\<close>

text \<open>
  C2: for every byte sequence and every source address, no exception leaves
  \<open>datagram_received\<close>; and for every byte sequence that is not valid UTF-8, decoding
  fails, the failure is logged and \<open>on_call\<close> is not called.
\<close>

theorem datagram_received_total:
  "(\<forall>e. datagram_received data addr \<noteq> Raised e) \<and>
   (utf8_decode (map of_char data) = None \<longrightarrow> datagram_received data addr = Logged UnicodeDecodeError)"
proof
  show "\<forall>e. datagram_received data addr \<noteq> Raised e"
    by (cases "datagram_received_try data addr")
       (auto simp: datagram_received_def is_Exception_all split: option.splits)
next
  show "utf8_decode (map of_char data) = None \<longrightarrow> datagram_received data addr = Logged UnicodeDecodeError"
    by (simp add: datagram_received_def datagram_received_try_def decode_def bind_err_def)
qed

theorem datagram_received_total_witness:
  "utf8_decode (map of_char [CHR 0xFF]) = None \<and> datagram_received [CHR 0xFF] (ascii ''10.0.0.1'', 5060) = Logged UnicodeDecodeError"
  using datagram_received_total [of "[CHR 0xFF]" "(ascii ''10.0.0.1'', 5060)"]
  by simp

section \<open>\<open>answer\<close> without a transport, and \<open>answer\<close> twice\<close>

text \<open>
  C7: when no transport is bound, every call of \<open>answer\<close> fails with the
  \<open>AssertionError\<close> of line 103, which reaches the caller, and the protocol object is
  unchanged: nothing is sent.
\<close>

theorem answer_no_transport:
  "transport self = None \<Longrightarrow> answer self h cip cport sip rport = (Inl AssertionError, self)"
  by (simp add: answer_def)

theorem answer_no_transport_witness:
  "transport init = None \<and> answer init example_headers (ascii ''10.0.0.1'') 5060 (ascii ''192.0.2.10'') 5004 = (Inl AssertionError, init)"
  using answer_no_transport [of init example_headers "ascii ''10.0.0.1''" 5060 "ascii ''192.0.2.10''" 5004]
  by (simp add: init_def)



section \<open>The header mapping of \<open>_parse_sip\<close>\<close>

lemma parse_loop_mapping:
  assumes "parse_loop (Suc i) ls (m, h, off) = Inr (m', h', off')"
  shows "h' = h ++ map_of (rev (map header_entry (takeWhile (\<lambda>l. l \<noteq> []) ls)))"
  using assms
proof (induction ls arbitrary: i h off)
  case Nil
  then show ?case by simp
next
  case (Cons l ls)
  show ?case
  proof (cases "l = []")
    case True
    with Cons.prems show ?thesis by simp
  next
    case False
    show ?thesis
    proof (cases "58 \<in> set l")
      case no: False
      with False Cons.prems show ?thesis by (simp add: split_max1_def)
    next
      case True
      obtain k v where kv: "header_entry l = (k, v)" by (cases "header_entry l")
      with False True Cons.prems
      have "parse_loop (Suc (Suc i)) ls (m, h(k \<mapsto> v), off + (length l + length CRLF))
              = Inr (m', h', off')"
        by (simp add: split_max1_def header_entry_def)
      from Cons.IH [OF this]
      have "h' = h(k \<mapsto> v) ++ map_of (rev (map header_entry (takeWhile (\<lambda>l. l \<noteq> []) ls)))" .
      also have "\<dots> = (h ++ [k \<mapsto> v]) ++ map_of (rev (map header_entry (takeWhile (\<lambda>l. l \<noteq> []) ls)))"
        by simp
      also have "\<dots> = h ++ ([k \<mapsto> v] ++ map_of (rev (map header_entry (takeWhile (\<lambda>l. l \<noteq> []) ls))))"
        by (simp only: map_add_assoc)
      also have "[k \<mapsto> v] ++ map_of (rev (map header_entry (takeWhile (\<lambda>l. l \<noteq> []) ls)))
          = map_of (rev (map header_entry (takeWhile (\<lambda>l. l \<noteq> []) (l # ls))))"
        using False by (simp add: kv)
      finally show ?thesis .
    qed
  qed
qed

text \<open>
  C8: the header mapping returned by \<open>_parse_sip\<close> is the mapping of the header lines read
  from the last to the first. A key is the name of a header line folded to lower case by
  \<open>str.lower()\<close>, its value is the trimmed value of the last header line with that name.
\<close>

theorem parse_sip_headers:
  assumes "parse_sip message = Inr (method, h, body)"
  shows "h = map_of (rev (map header_entry (header_lines message)))"
proof (cases "parse_loop 0 (splitlines message) (None, Map.empty, 0)")
  case (Inl e)
  with assms show ?thesis by (simp add: parse_sip_def)
next
  case (Inr st)
  obtain m' h' off where st: "st = (m', h', off)" by (cases st)
  with Inr assms have h': "h' = h" by (simp add: parse_sip_def)
  show ?thesis
  proof (cases "splitlines message")
    case Nil
    with Inr st h' show ?thesis by (simp add: header_lines_def)
  next
    case (Cons l ls)
    from Inr have loop: "parse_loop 0 (l # ls) (None, Map.empty, 0) = Inr (m', h, off)"
      unfolding Cons st h' .
    show ?thesis
    proof (cases "split_ws l")
      case Nil
      with loop show ?thesis by (simp add: Let_def)
    next
      case tk: (Cons tok toks)
      with loop obtain off0 where
        "parse_loop (Suc 0) ls (Some tok, Map.empty, off0) = Inr (m', h, off)"
        by (simp add: Let_def)
      from parse_loop_mapping [OF this] show ?thesis
        by (simp add: header_lines_def Cons)
    qed
  qed
qed

theorem parse_sip_headers_witness:
  "parse_sip (crlf_lines [ascii ''INVITE x'', ascii ''VIA: foo'', ascii ''via:  bar '',
                          ascii ''Contact : a:b'', [201] @ ascii '': c''] @ CRLF)
     = Inr (Some (ascii ''INVITE''),
            [ascii ''via'' \<mapsto> ascii ''bar'', ascii ''contact '' \<mapsto> ascii ''a:b'',
             [233] \<mapsto> ascii ''c''], CRLF)
   \<and> [ascii ''via'' \<mapsto> ascii ''bar'', ascii ''contact '' \<mapsto> ascii ''a:b'',
       [233] \<mapsto> ascii ''c'']
     = map_of (rev (map header_entry (header_lines
         (crlf_lines [ascii ''INVITE x'', ascii ''VIA: foo'', ascii ''via:  bar '',
                      ascii ''Contact : a:b'', [201] @ ascii '': c''] @ CRLF))))"
proof -
  have e: "parse_sip (crlf_lines [ascii ''INVITE x'', ascii ''VIA: foo'', ascii ''via:  bar '',
                          ascii ''Contact : a:b'', [201] @ ascii '': c''] @ CRLF)
     = Inr (Some (ascii ''INVITE''),
            [ascii ''via'' \<mapsto> ascii ''bar'', ascii ''contact '' \<mapsto> ascii ''a:b'',
             [233] \<mapsto> ascii ''c''], CRLF)"
    by (simp add: eval_defs case_defs crlf_lines_def)
  from parse_sip_headers [OF e] e show ?thesis by simp
qed

lemma header_name_case:
  "parse_sip (crlf_lines [ascii ''INVITE x'', ascii ''VIA: foo''] @ CRLF)
     = Inr (Some (ascii ''INVITE''), [ascii ''via'' \<mapsto> ascii ''foo''], CRLF)"
  "parse_sip (crlf_lines [ascii ''INVITE x'', ascii ''via: foo''] @ CRLF)
     = Inr (Some (ascii ''INVITE''), [ascii ''via'' \<mapsto> ascii ''foo''], CRLF)"
  by (simp_all add: eval_defs crlf_lines_def)

text \<open>
  Header names outside Basic Latin: the name U+00C9 gives the key U+00E9, and the names
  U+212A and \<open>k\<close> give the same key, so that the later line wins.
\<close>

lemma header_name_unicode:
  "parse_sip (crlf_lines [ascii ''INVITE x'', [201] @ ascii '': foo''] @ CRLF)
     = Inr (Some (ascii ''INVITE''), [[233] \<mapsto> ascii ''foo''], CRLF)"
  "parse_sip (crlf_lines [ascii ''INVITE x'', [8490] @ ascii '': a'', ascii ''k: b''] @ CRLF)
     = Inr (Some (ascii ''INVITE''), [ascii ''k'' \<mapsto> ascii ''b''], CRLF)"
  by (simp_all add: eval_defs case_defs crlf_lines_def)

section \<open>The body returned by \<open>_parse_sip\<close>\<close>

text \<open>
  C3, as the code has it: the offset counts two characters for the terminator of every
  line that is not empty and nothing for the empty line. For a message whose first line
  and header lines each end in CR LF, followed by an empty line that ends in CR LF, the
  body is that CR LF followed by exactly the characters after it.
\<close>

theorem parse_sip_body:
  assumes "is_line l0" and "split_ws l0 \<noteq> []"
    and "list_all is_line hs" and "\<forall>l \<in> set hs. l \<noteq> [] \<and> 58 \<in> set l"
  shows "\<exists>method h. parse_sip (crlf_lines (l0 # hs) @ CRLF @ rest) = Inr (method, h, CRLF @ rest)"
proof -
  from assms(2) obtain tok toks where "split_ws l0 = tok # toks"
    by (cases "split_ws l0") simp_all
  from parse_sip_crlf [OF assms(1) this assms(3,4)] show ?thesis by blast
qed

theorem parse_sip_body_witness:
  "is_line (ascii ''INVITE x'') \<and> split_ws (ascii ''INVITE x'') \<noteq> []
   \<and> list_all is_line [ascii ''To: y'']
   \<and> ascii ''To: y'' \<noteq> [] \<and> 58 \<in> set (ascii ''To: y'')
   \<and> parse_sip (crlf_lines [ascii ''INVITE x'', ascii ''To: y''] @ CRLF @ ascii '' v=0 '' @ CRLF)
       = Inr (Some (ascii ''INVITE''), [ascii ''to'' \<mapsto> ascii ''y''], CRLF @ ascii '' v=0 '' @ CRLF)"
proof -
  have a: "is_line (ascii ''INVITE x'')" "split_ws (ascii ''INVITE x'') \<noteq> []"
    "list_all is_line [ascii ''To: y'']"
    "\<forall>l \<in> set [ascii ''To: y'']. l \<noteq> [] \<and> 58 \<in> set l"
    by (simp_all add: is_line_def is_linebreak_def split_ws_def is_space_def ascii_def)
  have e: "parse_sip (crlf_lines [ascii ''INVITE x'', ascii ''To: y''] @ CRLF @ ascii '' v=0 '' @ CRLF)
       = Inr (Some (ascii ''INVITE''), [ascii ''to'' \<mapsto> ascii ''y''], CRLF @ ascii '' v=0 '' @ CRLF)"
    by (simp add: eval_defs crlf_lines_def)
  from parse_sip_body [OF a, of "ascii '' v=0 '' @ CRLF"] a e show ?thesis by simp
qed

text \<open>
  C3 as claimed fails: the body of \<open>INVITE x\<close>, CR LF, CR LF, \<open>abc\<close> is CR LF \<open>abc\<close>, with
  the separator; and with LF line ends the offset overshoots, so that the body of
  \<open>INVITE x\<close>, LF, \<open>To: y\<close>, LF, LF, \<open>body\<close> is \<open>ody\<close>.
\<close>

theorem parse_sip_body_counterexample:
  "parse_sip (ascii ''INVITE x'' @ CRLF @ CRLF @ ascii ''abc'')
     = Inr (Some (ascii ''INVITE''), Map.empty, CRLF @ ascii ''abc'')
   \<and> parse_sip (ascii ''INVITE x'' @ [10] @ ascii ''To: y'' @ [10, 10] @ ascii ''body'')
     = Inr (Some (ascii ''INVITE''), [ascii ''to'' \<mapsto> ascii ''y''], ascii ''ody'')"
  by (simp add: eval_defs)

section \<open>Encoding and decoding\<close>









section \<open>The response of \<open>answer\<close>, parsed again\<close>




















end
